theory Spec2Isabelle
  imports Complex_Main
begin

section \<open>The job queue of src/index.js\<close>

text \<open>
  The module keeps two globals, \<open>processingQueue\<close> (an array used as a FIFO) and
  \<open>activeProcessors\<close> (a counter). A worker is one call of the async function
  \<open>processQueue\<close>. JavaScript runs each stretch of code between two \<open>await\<close>s without
  interruption, so the model has one transition per stretch, and a suspended worker
  is recorded by the \<open>await\<close> it is parked at.
\<close>

record job =
  itemId :: nat
  boardId :: nat

text \<open>How the promise of \<open>processItemExtraction(itemId, boardId)\<close> settles.\<close>

datatype outcome = Resolved | Rejected string

text \<open>
  The two suspension points of \<open>processQueue\<close>: \<open>await processItemExtraction(...)\<close> and
  \<open>await new Promise(resolve => setTimeout(resolve, 500))\<close>.
\<close>

datatype worker = Extracting job | Delaying nat

record queue_state =
  processingQueue :: "job list"
  activeProcessors :: int
  workers :: "worker list"

definition MAX_CONCURRENT_PROCESSORS :: int where
  "MAX_CONCURRENT_PROCESSORS = 10"

definition initial :: queue_state where
  "initial = \<lparr>processingQueue = [], activeProcessors = 0, workers = []\<rparr>"

text \<open>
  \<open>processQueue()\<close> from its entry to its first suspension. With a job in the queue the
  loop shifts it and parks at \<open>await processItemExtraction\<close>. With an empty queue the
  loop is skipped and the \<open>finally\<close> block runs at once: it decrements the counter, and
  its restart test reads the same empty queue, so nothing is restarted.
\<close>

definition processQueue_enter :: "queue_state \<Rightarrow> queue_state" where
  "processQueue_enter s =
     (case processingQueue s of
        [] \<Rightarrow> s\<lparr>activeProcessors := activeProcessors s - 1\<rparr>
      | j # q \<Rightarrow> s\<lparr>processingQueue := q, workers := workers s @ [Extracting j]\<rparr>)"

function startProcessors :: "queue_state \<Rightarrow> queue_state" where
  "startProcessors s =
     (if activeProcessors s < MAX_CONCURRENT_PROCESSORS \<and> processingQueue s \<noteq> []
      then startProcessors (processQueue_enter (s\<lparr>activeProcessors := activeProcessors s + 1\<rparr>))
      else s)"
  by pat_completeness auto

termination
  by (relation "measure (\<lambda>s. length (processingQueue s))")
     (auto simp: processQueue_enter_def split: list.splits)

declare startProcessors.simps [simp del]

definition addToQueue :: "job \<Rightarrow> queue_state \<Rightarrow> queue_state" where
  "addToQueue j s = startProcessors (s\<lparr>processingQueue := processingQueue s @ [j]\<rparr>)"

text \<open>
  The \<open>finally\<close> block of \<open>processQueue\<close>, run when worker \<open>i\<close> leaves: the worker is
  gone, the counter is decremented, and \<open>startProcessors\<close> is called under the test
  \<open>processingQueue.length > 0 && activeProcessors < MAX_CONCURRENT_PROCESSORS\<close>.
\<close>

definition remove_worker :: "nat \<Rightarrow> queue_state \<Rightarrow> queue_state" where
  "remove_worker i s = s\<lparr>workers := take i (workers s) @ drop (Suc i) (workers s)\<rparr>"

definition decrement :: "queue_state \<Rightarrow> queue_state" where
  "decrement s = s\<lparr>activeProcessors := activeProcessors s - 1\<rparr>"

definition finally_block :: "queue_state \<Rightarrow> queue_state" where
  "finally_block s =
     (let s1 = decrement s
      in if processingQueue s1 \<noteq> [] \<and> activeProcessors s1 < MAX_CONCURRENT_PROCESSORS
         then startProcessors s1
         else s1)"

text \<open>
  Worker \<open>i\<close> resumes after \<open>await processItemExtraction\<close>. A resolved promise falls
  through the \<open>try\<close>; a rejected one is taken by the inner \<open>catch (error)\<close>, which only
  writes to the console. Both continue with the 500 ms timer.
\<close>

definition job_settled :: "nat \<Rightarrow> outcome \<Rightarrow> queue_state \<Rightarrow> queue_state" where
  "job_settled i out s =
     (case out of
        Resolved \<Rightarrow> s\<lparr>workers := (workers s)[i := Delaying 500]\<rparr>
      | Rejected e \<Rightarrow> s\<lparr>workers := (workers s)[i := Delaying 500]\<rparr>)"

text \<open>
  Worker \<open>i\<close> resumes after the timer and tests \<open>processingQueue.length > 0\<close> again:
  the next job is shifted, or the loop ends and the \<open>finally\<close> block runs.
\<close>

definition timer_fired :: "nat \<Rightarrow> queue_state \<Rightarrow> queue_state" where
  "timer_fired i s =
     (case processingQueue s of
        j # q \<Rightarrow> s\<lparr>processingQueue := q, workers := (workers s)[i := Extracting j]\<rparr>
      | [] \<Rightarrow> finally_block (remove_worker i s))"

text \<open>
  An exception raised in the loop outside the per-job \<open>try\<close> reaches
  \<open>catch (processorError)\<close>, which writes to the console; the \<open>finally\<close> block follows.
\<close>

definition processor_crashed :: "nat \<Rightarrow> queue_state \<Rightarrow> queue_state" where
  "processor_crashed i s = finally_block (remove_worker i s)"

inductive reachable :: "queue_state \<Rightarrow> bool" where
  r_initial: "reachable initial"
| r_enqueue: "reachable s \<Longrightarrow> reachable (addToQueue j s)"
| r_start: "reachable s \<Longrightarrow> reachable (startProcessors s)"
| r_settled: "reachable s \<Longrightarrow> i < length (workers s) \<Longrightarrow> workers s ! i = Extracting j
              \<Longrightarrow> reachable (job_settled i out s)"
| r_timer: "reachable s \<Longrightarrow> i < length (workers s) \<Longrightarrow> workers s ! i = Delaying d
              \<Longrightarrow> reachable (timer_fired i s)"
| r_crashed: "reachable s \<Longrightarrow> i < length (workers s) \<Longrightarrow> reachable (processor_crashed i s)"

subsection \<open>Notions used in the statements about the queue\<close>

text \<open>The number of workers one call of \<open>startProcessors\<close> starts.\<close>

definition started :: "queue_state \<Rightarrow> nat" where
  "started s = min (nat (MAX_CONCURRENT_PROCESSORS - activeProcessors s)) (length (processingQueue s))"

text \<open>
  The invariant of the pool: the counter counts the live workers, it is within the
  bound, and a backlog exists only while the pool is full.
\<close>

definition pool_invariant :: "queue_state \<Rightarrow> bool" where
  "pool_invariant s \<longleftrightarrow>
     activeProcessors s = int (length (workers s)) \<and>
     activeProcessors s \<le> MAX_CONCURRENT_PROCESSORS \<and>
     (processingQueue s \<noteq> [] \<longrightarrow> activeProcessors s = MAX_CONCURRENT_PROCESSORS)"

text \<open>Twelve jobs arrive in a row, two more than the pool takes.\<close>

definition burst :: queue_state where
  "burst = foldl (\<lambda>s n. addToQueue \<lparr>itemId = n, boardId = 7\<rparr> s) initial [101, 102, 103, 104, 105, 106, 107, 108, 109, 110, 111, 112]"

text \<open>One job arrives, is taken by a worker and resolves.\<close>

definition one_delaying :: queue_state where
  "one_delaying = job_settled 0 Resolved (addToQueue \<lparr>itemId = 101, boardId = 7\<rparr> initial)"

section \<open>The field parser of src/controllers/fileController.js\<close>

subsection \<open>JavaScript strings\<close>

text \<open>
  A JavaScript string is a sequence of UTF-16 code units. Code units are natural
  numbers here, so that the euro sign (U+20AC) of the patterns has a value; \<open>str\<close>
  reads an ASCII literal.
\<close>

type_synonym cu = nat

type_synonym jstring = "cu list"

definition str :: "string \<Rightarrow> jstring" where
  "str s = map of_char s"

text \<open>
  The characters \<open>\s\<close> matches and \<open>trim\<close> strips (WhiteSpace and LineTerminator of
  ECMAScript), the line terminators, and the digits of \<open>\d\<close>.
\<close>

definition isWhiteSpace :: "cu \<Rightarrow> bool" where
  "isWhiteSpace c \<longleftrightarrow>
     (9 \<le> c \<and> c \<le> 13) \<or> c = 32 \<or> c = 160 \<or> c = 5760 \<or> (8192 \<le> c \<and> c \<le> 8202) \<or>
     c = 8232 \<or> c = 8233 \<or> c = 8239 \<or> c = 8287 \<or> c = 12288 \<or> c = 65279"

definition isLineTerminator :: "cu \<Rightarrow> bool" where
  "isLineTerminator c \<longleftrightarrow> c = 10 \<or> c = 13 \<or> c = 8232 \<or> c = 8233"

definition isDigit :: "cu \<Rightarrow> bool" where
  "isDigit c \<longleftrightarrow> 48 \<le> c \<and> c \<le> 57"

definition trim :: "jstring \<Rightarrow> jstring" where
  "trim s = rev (dropWhile isWhiteSpace (rev (dropWhile isWhiteSpace s)))"

text \<open>\<open>s.split(c)\<close> for a one-character separator: never an empty array.\<close>

fun split :: "cu \<Rightarrow> jstring \<Rightarrow> jstring list" where
  "split c [] = [[]]"
| "split c (x # xs) =
     (if x = c then [] # split c xs
      else (case split c xs of [] \<Rightarrow> [[x]] | y # ys \<Rightarrow> (x # y) # ys))"

definition str_includes :: "jstring \<Rightarrow> cu \<Rightarrow> bool" where
  "str_includes s c \<longleftrightarrow> c \<in> set s"

text \<open>\<open>s.lastIndexOf(c)\<close>: the last position of \<open>c\<close>, or \<open>-1\<close>.\<close>

fun lastIndexOf_from :: "int \<Rightarrow> jstring \<Rightarrow> cu \<Rightarrow> int \<Rightarrow> int" where
  "lastIndexOf_from i [] c found = found"
| "lastIndexOf_from i (x # xs) c found = lastIndexOf_from (i + 1) xs c (if x = c then i else found)"

definition lastIndexOf :: "jstring \<Rightarrow> cu \<Rightarrow> int" where
  "lastIndexOf s c = lastIndexOf_from 0 s c (- 1)"

text \<open>\<open>s.replace(c, d)\<close> with string arguments replaces the first occurrence only.\<close>

fun replace_first :: "cu \<Rightarrow> cu \<Rightarrow> jstring \<Rightarrow> jstring" where
  "replace_first c d [] = []"
| "replace_first c d (x # xs) = (if x = c then d # xs else x # replace_first c d xs)"

text \<open>\<open>s.replace(/c/g, '')\<close> for a single character \<open>c\<close>.\<close>

definition remove_all :: "cu \<Rightarrow> jstring \<Rightarrow> jstring" where
  "remove_all c s = filter (\<lambda>x. x \<noteq> c) s"

text \<open>\<open>s.replace(/\s+/g, ' ')\<close>: every maximal run of white space becomes one space.\<close>

function collapse_spaces :: "jstring \<Rightarrow> jstring" where
  "collapse_spaces [] = []"
| "collapse_spaces (x # xs) =
     (if isWhiteSpace x then 32 # collapse_spaces (dropWhile isWhiteSpace xs)
      else x # collapse_spaces xs)"
  by pat_completeness auto

termination
  by (relation "measure length") (auto simp: length_dropWhile_le less_Suc_eq_le)

definition substring :: "nat \<Rightarrow> nat \<Rightarrow> jstring \<Rightarrow> jstring" where
  "substring a b s = take (b - a) (drop a s)"

text \<open>
  \<open>toUpperCase\<close>, exact on the code units below 256 (\<open>U+00DF\<close> becomes \<open>SS\<close>);
  parseInvoiceData applies it to a match of its currency pattern only.
\<close>

definition upper_cu :: "cu \<Rightarrow> jstring" where
  "upper_cu c =
     (if 97 \<le> c \<and> c \<le> 122 then [c - 32]
      else if 224 \<le> c \<and> c \<le> 254 \<and> c \<noteq> 247 then [c - 32]
      else if c = 223 then [83, 83]
      else if c = 255 then [376]
      else if c = 181 then [924]
      else [c])"

definition toUpperCase :: "jstring \<Rightarrow> jstring" where
  "toUpperCase s = concat (map upper_cu s)"

text \<open>A string or \<open>undefined\<close>/\<open>null\<close> in a condition: only a non-empty string is truthy.\<close>

definition falsy :: "jstring option \<Rightarrow> bool" where
  "falsy v \<longleftrightarrow> (case v of None \<Rightarrow> True | Some s \<Rightarrow> s = [])"

text \<open>A value inside a template literal.\<close>

definition interpolate :: "jstring option \<Rightarrow> jstring" where
  "interpolate v = (case v of None \<Rightarrow> str ''undefined'' | Some s \<Rightarrow> s)"

subsection \<open>Numbers\<close>

text \<open>
  A finite number is the exact decimal value of its literal: the model does not round
  to a binary double, so a literal beyond the range of a double is not \<open>Infinity\<close>
  and one below it is not zero here. The theorems below evaluate \<open>parseFloat\<close> only at
  short literals, or do not depend on its value. \<open>parseFloat\<close> reads the longest prefix
  that is a decimal literal, after leading white space.
\<close>

datatype number = NaN | Num rat | PosInfinity | NegInfinity

definition digits_value :: "jstring \<Rightarrow> nat" where
  "digits_value ds = foldl (\<lambda>a d. 10 * a + (d - 48)) 0 ds"

fun starts_with :: "jstring \<Rightarrow> jstring \<Rightarrow> bool" where
  "starts_with [] s = True"
| "starts_with (p # ps) [] = False"
| "starts_with (p # ps) (x # xs) = (p = x \<and> starts_with ps xs)"

definition exponent :: "jstring \<Rightarrow> int" where
  "exponent s =
     (case s of
        [] \<Rightarrow> 0
      | e # r \<Rightarrow>
          if e = 101 \<or> e = 69 then
            (case r of
               [] \<Rightarrow> 0
             | c # t \<Rightarrow>
                 if c = 45 then - int (digits_value (takeWhile isDigit t))
                 else if c = 43 then int (digits_value (takeWhile isDigit t))
                 else int (digits_value (takeWhile isDigit r)))
          else 0)"

definition unsigned_literal :: "jstring \<Rightarrow> number" where
  "unsigned_literal s =
     (if starts_with (str ''Infinity'') s then PosInfinity
      else
        let ip = takeWhile isDigit s;
            r1 = dropWhile isDigit s;
            fp = (case r1 of [] \<Rightarrow> [] | c # t \<Rightarrow> if c = 46 then takeWhile isDigit t else []);
            r2 = (case r1 of [] \<Rightarrow> [] | c # t \<Rightarrow> if c = 46 then dropWhile isDigit t else r1)
        in if ip = [] \<and> fp = [] then NaN
           else Num (of_nat (digits_value (ip @ fp)) / 10 ^ length fp * 10 powi exponent r2))"

definition negate :: "number \<Rightarrow> number" where
  "negate x = (case x of NaN \<Rightarrow> NaN | Num q \<Rightarrow> Num (- q) | PosInfinity \<Rightarrow> NegInfinity | NegInfinity \<Rightarrow> PosInfinity)"

definition parseFloat :: "jstring \<Rightarrow> number" where
  "parseFloat s =
     (case dropWhile isWhiteSpace s of
        [] \<Rightarrow> NaN
      | c # t \<Rightarrow> if c = 45 then negate (unsigned_literal t)
                 else if c = 43 then unsigned_literal t
                 else unsigned_literal (c # t))"

definition isNaN :: "number \<Rightarrow> bool" where
  "isNaN x \<longleftrightarrow> x = NaN"

fun greater_zero :: "number \<Rightarrow> bool" where
  "greater_zero NaN = False"
| "greater_zero (Num q) = (0 < q)"
| "greater_zero PosInfinity = True"
| "greater_zero NegInfinity = False"

text \<open>\<open>!x\<close> for a number or \<open>null\<close>.\<close>

definition falsy_number :: "number option \<Rightarrow> bool" where
  "falsy_number v \<longleftrightarrow> (case v of None \<Rightarrow> True | Some x \<Rightarrow> x = NaN \<or> x = Num 0)"

subsection \<open>Regular expressions\<close>

text \<open>
  The patterns of the file use literals, classes, sequence, alternation, greedy and
  lazy quantifiers, capturing groups, one lookahead, and the anchors. A match follows
  the backtracking order of ECMAScript: \<open>matches\<close> lists every way a pattern can match
  at a position, the preferred way first, and \<open>search\<close> takes the first way at the
  leftmost position that has one.
\<close>

text \<open>
  Under the flag \<open>i\<close> two code units match when they have the same canonical form
  (the upper-case form, where that is one code unit and does not turn a non-ASCII
  one into ASCII). \<open>variants c\<close> lists the code units with the canonical form of \<open>c\<close>,
  for every \<open>c\<close> that shares it with a code unit below 256.
\<close>

definition variants :: "cu \<Rightarrow> cu list" where
  "variants c =
     (if 65 \<le> c \<and> c \<le> 90 then [c, c + 32]
      else if 97 \<le> c \<and> c \<le> 122 then [c, c - 32]
      else if 192 \<le> c \<and> c \<le> 222 \<and> c \<noteq> 215 then [c, c + 32]
      else if 224 \<le> c \<and> c \<le> 254 \<and> c \<noteq> 247 then [c, c - 32]
      else if c = 255 then [c, 376]
      else if c = 376 then [c, 255]
      else if c = 181 then [c, 924, 956]
      else if c = 924 then [c, 181, 956]
      else if c = 956 then [c, 181, 924]
      else [c])"

datatype item = One cu | Range cu cu | Space | Digit

fun in_item :: "cu \<Rightarrow> item \<Rightarrow> bool" where
  "in_item c (One d) = (c = d)"
| "in_item c (Range lo hi) = (lo \<le> c \<and> c \<le> hi)"
| "in_item c Space = isWhiteSpace c"
| "in_item c Digit = isDigit c"

record flags =
  ignoreCase :: bool
  multiline :: bool

definition in_class :: "flags \<Rightarrow> item list \<Rightarrow> cu \<Rightarrow> bool" where
  "in_class fl its c =
     (if ignoreCase fl then list_ex (\<lambda>v. list_ex (in_item v) its) (variants c)
      else list_ex (in_item c) its)"

definition same_char :: "flags \<Rightarrow> cu \<Rightarrow> cu \<Rightarrow> bool" where
  "same_char fl c x = (if ignoreCase fl then c \<in> set (variants x) else c = x)"

text \<open>
  \<open>Rep r lo hi greedy\<close> is \<open>r{lo,hi}\<close> (\<open>hi = None\<close>: no upper bound), lazy when
  \<open>greedy\<close> is false. \<open>Grp n r\<close> is the \<open>n\<close>-th capturing group; no pattern of the file has a
  group under a quantifier, so a capture is never reset. \<open>Ahead r\<close> is \<open>(?=r)\<close>, \<open>Bol\<close> and
  \<open>Eol\<close> are \<open>^\<close> and \<open>$\<close>.
\<close>

datatype re =
    Chr cu
  | Cls "item list"
  | Eps
  | Seq re re
  | Alt re re
  | Rep re nat "nat option" bool
  | Grp nat re
  | Ahead re
  | Bol
  | Eol

text \<open>
  A matcher state: the code unit before the position (for \<open>^\<close>), the input from the
  position on, and the groups captured so far, the latest first.
\<close>

type_synonym mstate = "cu option \<times> jstring \<times> (nat \<times> jstring) list"

text \<open>
  The quantifier. Once the lower bound is met, an iteration that consumes nothing is
  refused, as ECMAScript does; the fuel (lower bound plus input length) is never
  used up.
\<close>

fun rep :: "(mstate \<Rightarrow> mstate list) \<Rightarrow> nat \<Rightarrow> nat option \<Rightarrow> bool \<Rightarrow> nat \<Rightarrow> mstate \<Rightarrow> mstate list" where
  "rep f lo hi greedy 0 st = (if lo = 0 then [st] else [])"
| "rep f lo hi greedy (Suc fuel) st =
     (let stop = (if lo = 0 then [st] else []);
          again = (if hi = Some 0 then []
                   else concat (map (rep f (lo - 1) (map_option (\<lambda>h. h - 1) hi) greedy fuel)
                          (filter (\<lambda>st'. 0 < lo \<or> length (fst (snd st')) < length (fst (snd st))) (f st))))
      in if greedy then again @ stop else stop @ again)"

primrec matches :: "flags \<Rightarrow> re \<Rightarrow> mstate \<Rightarrow> mstate list" where
  "matches fl (Chr c) = (\<lambda>(p, xs, cs).
     case xs of [] \<Rightarrow> []
     | x # ys \<Rightarrow> if same_char fl c x then [(Some x, ys, cs)] else [])"
| "matches fl (Cls its) = (\<lambda>(p, xs, cs).
     case xs of [] \<Rightarrow> []
     | x # ys \<Rightarrow> if in_class fl its x then [(Some x, ys, cs)] else [])"
| "matches fl Eps = (\<lambda>st. [st])"
| "matches fl (Seq a b) = (\<lambda>st. concat (map (matches fl b) (matches fl a st)))"
| "matches fl (Alt a b) = (\<lambda>st. matches fl a st @ matches fl b st)"
| "matches fl (Rep r lo hi greedy) =
     (\<lambda>st. rep (matches fl r) lo hi greedy (lo + length (fst (snd st))) st)"
| "matches fl (Grp n r) = (\<lambda>(p, xs, cs).
     map (\<lambda>(p', ys, cs'). (p', ys, (n, take (length xs - length ys) xs) # cs'))
       (matches fl r (p, xs, cs)))"
| "matches fl (Ahead r) = (\<lambda>(p, xs, cs).
     case matches fl r (p, xs, cs) of [] \<Rightarrow> [] | (p', ys, cs') # _ \<Rightarrow> [(p, xs, cs')])"
| "matches fl Bol = (\<lambda>(p, xs, cs).
     case p of None \<Rightarrow> [(p, xs, cs)]
     | Some c \<Rightarrow> if multiline fl \<and> isLineTerminator c then [(p, xs, cs)] else [])"
| "matches fl Eol = (\<lambda>(p, xs, cs).
     case xs of [] \<Rightarrow> [(p, xs, cs)]
     | x # _ \<Rightarrow> if multiline fl \<and> isLineTerminator x then [(p, xs, cs)] else [])"

text \<open>The result of \<open>s.match(pattern)\<close>: \<open>match[0]\<close> and the groups.\<close>

record rmatch =
  whole :: jstring
  groups :: "(nat \<times> jstring) list"

definition group :: "rmatch \<Rightarrow> nat \<Rightarrow> jstring option" where
  "group m n = map_of (groups m) n"

fun search :: "flags \<Rightarrow> re \<Rightarrow> cu option \<Rightarrow> jstring \<Rightarrow> rmatch option" where
  "search fl r p [] =
     (case matches fl r (p, [], []) of
        [] \<Rightarrow> None
      | (p', ys, cs) # _ \<Rightarrow> Some \<lparr>whole = [], groups = cs\<rparr>)"
| "search fl r p (x # xs) =
     (case matches fl r (p, x # xs, []) of
        [] \<Rightarrow> search fl r (Some x) xs
      | (p', ys, cs) # _ \<Rightarrow> Some \<lparr>whole = take (length (x # xs) - length ys) (x # xs), groups = cs\<rparr>)"

type_synonym pattern = "re \<times> flags"

definition match :: "jstring \<Rightarrow> pattern \<Rightarrow> rmatch option" where
  "match s pat = search (snd pat) (fst pat) None s"

subsection \<open>Writing patterns\<close>

definition lit :: "string \<Rightarrow> re" where
  "lit s = foldr (\<lambda>c r. Seq (Chr (of_char c)) r) s Eps"

fun seq :: "re list \<Rightarrow> re" where
  "seq [] = Eps"
| "seq [r] = r"
| "seq (r # rs) = Seq r (seq rs)"

fun alts :: "re list \<Rightarrow> re" where
  "alts [] = Cls []"
| "alts [r] = r"
| "alts (r # rs) = Alt r (alts rs)"

definition many0 :: "re \<Rightarrow> re" where "many0 r = Rep r 0 None True"

definition many1 :: "re \<Rightarrow> re" where "many1 r = Rep r 1 None True"

definition many1_lazy :: "re \<Rightarrow> re" where "many1_lazy r = Rep r 1 None False"

definition optional :: "re \<Rightarrow> re" where "optional r = Rep r 0 (Some 1) True"

definition between :: "nat \<Rightarrow> nat \<Rightarrow> re \<Rightarrow> re" where "between lo hi r = Rep r lo (Some hi) True"

definition at_least :: "nat \<Rightarrow> re \<Rightarrow> re" where "at_least lo r = Rep r lo None True"

definition just :: "char \<Rightarrow> item" where "just c = One (of_char c)"

definition from_to :: "char \<Rightarrow> char \<Rightarrow> item" where "from_to a b = Range (of_char a) (of_char b)"

definition ws :: re where "ws = Cls [Space]"

definition dg :: re where "dg = Cls [Digit]"

definition euro :: cu where "euro = 8364"

definition pound :: cu where "pound = 163"

definition flag_i :: flags where "flag_i = \<lparr>ignoreCase = True, multiline = False\<rparr>"

definition flag_m :: flags where "flag_m = \<lparr>ignoreCase = False, multiline = True\<rparr>"

definition flag_im :: flags where "flag_im = \<lparr>ignoreCase = True, multiline = True\<rparr>"

definition no_flags :: flags where "no_flags = \<lparr>ignoreCase = False, multiline = False\<rparr>"

subsection \<open>parseInvoiceData\<close>

record invoice =
  totalValue :: "number option"
  currency :: "jstring option"
  invoiceNumber :: "jstring option"
  invoiceDate :: "jstring option"
  supplierName :: "jstring option"
  customerNIF :: "jstring option"

text \<open>A method called on \<open>undefined\<close> throws a TypeError.\<close>

datatype error = TypeError

definition currencies :: "re list" where
  "currencies = [lit ''eur'', Chr euro, lit ''usd'', lit ''$'', lit ''gbp'', Chr pound]"

definition comma_amount :: re where
  "comma_amount = seq [many1 (Cls [Digit, just CHR ''.'']), lit '','', between 2 2 dg]"

definition colon_space :: re where
  "colon_space = Cls [Space, just CHR '':'']"

definition symbol_class :: re where
  "symbol_class = Cls [just CHR ''$'', One euro, One pound, just CHR ''R'', just CHR ''$'']"

definition us_amount :: re where
  "us_amount = seq [many1 (Cls [Digit, just CHR '','']), optional (lit ''.''), between 0 2 dg]"

definition totalPatterns :: "pattern list" where
  "totalPatterns =
    [(seq [alts [lit ''total'',
                 seq [lit ''total'', many0 ws, lit ''incidencias''],
                 seq [lit ''valor'', many0 ws, lit ''total''],
                 seq [lit ''total'', many0 ws, lit ''a'', many0 ws, lit ''pagar'']],
           many0 colon_space, alts currencies, many0 ws, Grp 1 comma_amount], flag_i),
     (seq [alts (currencies @ [lit ''r$'']), many0 ws, Grp 1 comma_amount], flag_i),
     (seq [alts [lit ''total'',
                 seq [lit ''total'', many0 ws, lit ''a'', many0 ws, lit ''pagar''],
                 seq [lit ''valor'', many0 ws, lit ''total''],
                 lit ''montante''],
           many0 colon_space,
           Grp 1 (seq [many1 dg, Cls [just CHR ''.'', just CHR '',''], between 2 2 dg])], flag_i),
     (seq [alts [seq [lit ''a'', many0 ws, lit ''pagar''], lit ''pagar''],
           many0 colon_space, optional (alts [lit ''eur'', Chr euro]), many0 ws,
           Grp 1 comma_amount], flag_i),
     (seq [alts [seq [lit ''total'', many0 ws, lit ''amount'', many0 ws, lit ''due''],
                 seq [lit ''amount'', many0 ws, lit ''due''],
                 seq [lit ''balance'', many0 ws, lit ''due''],
                 seq [lit ''final'', many0 ws, lit ''total'']],
           many0 colon_space, optional symbol_class, many0 ws, Grp 1 us_amount], flag_i),
     (seq [lit ''grand'', many0 ws, lit ''total'',
           many0 colon_space, optional symbol_class, many0 ws, Grp 1 us_amount], flag_i),
     (seq [alts [lit ''total'',
                 seq [lit ''valor'', many0 ws, lit ''total''],
                 seq [lit ''total'', many0 ws, lit ''geral'']],
           many0 colon_space, lit ''R'', optional (lit ''$''), many0 ws, Grp 1 comma_amount], flag_i),
     (seq [Grp 1 comma_amount, many0 ws,
           alts [lit ''USD'', lit ''EUR'', lit ''BRL'', lit ''GBP'', lit ''Eur'', Chr euro]], flag_i),
     (seq [Grp 1 (seq [many1 (Cls [Digit, just CHR '','']), lit ''.'', between 2 2 dg]), many0 ws,
           alts [lit ''USD'', lit ''EUR'', lit ''BRL'', lit ''GBP'']], flag_i),
     (seq [Grp 1 (seq [between 1 6 dg, Cls [just CHR ''.'', just CHR '',''], between 2 2 dg]),
           Ahead (seq [many0 ws,
                       optional (alts [Chr euro, lit ''eur'', lit ''usd'', lit ''$'', lit ''gbp'', Chr pound]),
                       many0 ws, Eol])], flag_i)]"

text \<open>
  The body of the loop over \<open>totalPatterns\<close>: the separators of the matched value are
  normalised, and the first pattern whose value parses to a number above zero wins.
\<close>

definition normalise_amount :: "jstring \<Rightarrow> jstring" where
  "normalise_amount v =
     (if str_includes v 44 \<and> lastIndexOf v 44 > lastIndexOf v 46
      then replace_first 44 46 (remove_all 46 v)
      else remove_all 44 v)"

fun total_loop :: "pattern list \<Rightarrow> jstring \<Rightarrow> error + number option" where
  "total_loop [] cleanText = Inr None"
| "total_loop (pat # pats) cleanText =
     (case match cleanText pat of
        None \<Rightarrow> total_loop pats cleanText
      | Some m \<Rightarrow>
          (case group m 1 of
             None \<Rightarrow> Inl TypeError
           | Some v \<Rightarrow>
               let numericValue = parseFloat (normalise_amount v)
               in if \<not> isNaN numericValue \<and> greater_zero numericValue
                  then Inr (Some numericValue)
                  else total_loop pats cleanText))"

definition currencyPattern :: pattern where
  "currencyPattern =
     (Grp 1 (alts [lit ''$'', lit ''USD'', Chr euro, lit ''EUR'', lit ''Eur'', Chr pound, lit ''GBP'',
                   lit ''R$'', lit ''BRL'']), flag_i)"

definition currencyMap :: "(jstring \<times> jstring) list" where
  "currencyMap =
     [(str ''$'', str ''USD''), (str ''USD'', str ''USD''),
      ([euro], str ''EUR''), (str ''EUR'', str ''EUR''), (str ''Eur'', str ''EUR''),
      ([pound], str ''GBP''), (str ''GBP'', str ''GBP''),
      (str ''R$'', str ''BRL''), (str ''BRL'', str ''BRL'')]"

definition extract_currency :: "jstring \<Rightarrow> error + jstring option" where
  "extract_currency cleanText =
     (case match cleanText currencyPattern of
        None \<Rightarrow> Inr None
      | Some m \<Rightarrow>
          (case group m 1 of
             None \<Rightarrow> Inl TypeError
           | Some k \<Rightarrow>
               (case map_of currencyMap k of
                  Some c \<Rightarrow> Inr (Some c)
                | None \<Rightarrow> Inr (Some (toUpperCase k)))))"

definition series_class :: re where
  "series_class = Cls [from_to CHR ''A'' CHR ''Z'', from_to CHR ''0'' CHR ''9'', just CHR ''/'', just CHR ''-'']"

definition number_class :: re where
  "number_class = Cls [from_to CHR ''A'' CHR ''Z'', from_to CHR ''0'' CHR ''9'', just CHR ''-'']"

definition colon_dash :: re where
  "colon_dash = Cls [just CHR '':'', just CHR ''-'']"

definition seriesPattern :: pattern where
  "seriesPattern =
     (seq [Grp 1 (alts [seq [lit ''FT'', optional (Cls [just CHR ''A''])], lit ''FR'', lit ''FA'']),
           many1 ws, Grp 2 (many1 series_class)], flag_i)"

definition invoiceNumberPatterns :: "pattern list" where
  "invoiceNumberPatterns =
    [seriesPattern,
     (seq [alts [lit ''fatura-recibo'', lit ''fatura''], many0 ws, lit ''n'', optional colon_dash,
           many0 ws, Grp 1 (many1 series_class)], flag_i),
     (seq [lit ''invoice'', many0 ws, lit ''number'', many0 ws, optional colon_dash, many0 ws,
           Grp 1 (many1 number_class)], flag_i),
     (seq [lit ''invoice'', many0 ws, lit ''#'', many0 ws, optional colon_dash, many0 ws,
           Grp 1 (many1 number_class)], flag_i),
     (seq [lit ''invoice'', colon_dash, many0 ws, Grp 1 (many1 number_class)], flag_i),
     (seq [lit ''nota'', many0 ws, lit ''fiscal'', many0 ws, optional colon_dash, many0 ws,
           Grp 1 (many1 number_class)], flag_i),
     (seq [lit ''#'', many0 ws, Grp 1 (at_least 5 number_class)], no_flags),
     (seq [lit ''INV'', many0 (Cls [just CHR '':'', just CHR ''-'', Space]),
           Grp 1 (many1 number_class)], flag_i)]"

text \<open>
  The loop over \<open>invoiceNumberPatterns\<close> stops at the first pattern that matches.
\<close>

fun invoice_loop :: "pattern list \<Rightarrow> jstring \<Rightarrow> error + jstring option" where
  "invoice_loop [] cleanText = Inr None"
| "invoice_loop (pat # pats) cleanText =
     (case match cleanText pat of
        None \<Rightarrow> invoice_loop pats cleanText
      | Some m \<Rightarrow>
          if \<not> falsy (group m 2)
          then Inr (Some (trim (interpolate (group m 1) @ str '' '' @ interpolate (group m 2))))
          else (case group m 1 of
                  None \<Rightarrow> Inl TypeError
                | Some v \<Rightarrow> Inr (Some (trim v))))"

definition name_start :: re where
  "name_start = Cls [from_to CHR ''A'' CHR ''Z'', Range 192 255]"

definition name_char :: re where
  "name_char = Cls [from_to CHR ''A'' CHR ''Z'', from_to CHR ''a'' CHR ''z'', Range 192 255, Space,
                    just CHR ''&'', just CHR '','', just CHR ''.'', just CHR ''-'']"

definition supplierPatterns :: "pattern list" where
  "supplierPatterns =
    [(seq [Bol, Grp 1 (seq [name_start, many1_lazy name_char]),
           alts [seq [many1 ws, lit ''de:''], lit ''NIF:'', lit ''Urb.'', lit ''Rua'', lit ''Av.'',
                 lit ''Tel:'', lit ''Email'']], flag_im),
     (seq [Bol, Grp 1 (seq [name_start, many1_lazy name_char]), Eol], flag_m),
     (seq [alts [lit ''de'', lit ''from''], many1 colon_space,
           Grp 1 (seq [name_start, many1 name_char])], flag_i)]"

fun supplier_loop :: "pattern list \<Rightarrow> jstring \<Rightarrow> jstring option" where
  "supplier_loop [] text = None"
| "supplier_loop (pat # pats) text =
     (case match text pat of
        None \<Rightarrow> supplier_loop pats text
      | Some m \<Rightarrow>
          (case group m 1 of
             None \<Rightarrow> supplier_loop pats text
           | Some v \<Rightarrow> if v = [] then supplier_loop pats text else Some (trim v)))"

definition first_line_supplier :: "jstring \<Rightarrow> jstring option" where
  "first_line_supplier text =
     (case filter (\<lambda>line. trim line \<noteq> []) (split 10 text) of
        [] \<Rightarrow> None
      | line # _ \<Rightarrow>
          let firstLine = trim line
          in if firstLine \<noteq> [] \<and> length firstLine > 3 \<and> length firstLine < 100
             then Some firstLine else None)"

definition parseInvoiceData :: "jstring \<Rightarrow> error + invoice" where
  "parseInvoiceData text =
     (let cleanText = trim (collapse_spaces text) in
      case total_loop totalPatterns cleanText of
        Inl e \<Rightarrow> Inl e
      | Inr tv \<Rightarrow>
         (case extract_currency cleanText of
            Inl e \<Rightarrow> Inl e
          | Inr cur \<Rightarrow>
             (case invoice_loop invoiceNumberPatterns cleanText of
                Inl e \<Rightarrow> Inl e
              | Inr num \<Rightarrow>
                  let first = first_line_supplier text;
                      supplier = (if falsy first then supplier_loop supplierPatterns text else first)
                  in Inr \<lparr>totalValue = tv, currency = cur, invoiceNumber = num, invoiceDate = None,
                          supplierName = supplier, customerNIF = None\<rparr>)))"

subsection \<open>parseQRCodeData\<close>

definition qr_initial :: invoice where
  "qr_initial = \<lparr>totalValue = None, currency = Some (str ''EUR''), invoiceNumber = None,
                 invoiceDate = None, supplierName = None, customerNIF = None\<rparr>"

text \<open>
  The callback of \<open>fields.forEach\<close>. \<open>const [key, value] = field.split(':')\<close> takes the
  first two pieces; \<open>value\<close> is \<open>undefined\<close> when there is no colon.
\<close>

definition qr_field :: "invoice \<Rightarrow> jstring \<Rightarrow> invoice" where
  "qr_field invoiceData field =
     (case split 58 field of
        [] \<Rightarrow> invoiceData
      | [key] \<Rightarrow> invoiceData
      | key # v # _ \<Rightarrow>
          if key = [] \<or> v = [] then invoiceData
          else if trim key = str ''G'' then invoiceData\<lparr>invoiceNumber := Some (trim v)\<rparr>
          else if trim key = str ''A'' then invoiceData\<lparr>customerNIF := Some (trim v)\<rparr>
          else if trim key = str ''O'' then
            (let totalO = parseFloat (replace_first 44 46 v)
             in if \<not> isNaN totalO \<and> greater_zero totalO then invoiceData\<lparr>totalValue := Some totalO\<rparr> else invoiceData)
          else if trim key = str ''F'' then
            (if length v = 8
             then invoiceData\<lparr>invoiceDate := Some (substring 0 4 v @ str ''-'' @ substring 4 6 v @ str ''-'' @ substring 6 8 v)\<rparr>
             else invoiceData)
          else invoiceData)"

definition decimalPattern :: pattern where
  "decimalPattern = (Grp 1 (seq [many1 dg, Cls [just CHR ''.'', just CHR '',''], between 2 2 dg]), no_flags)"

text \<open>The simple parsing tried when neither a total nor an invoice number was read.\<close>

definition qr_fallback :: "jstring \<Rightarrow> invoice \<Rightarrow> error + invoice" where
  "qr_fallback qrData invoiceData =
     (let withNumber = (case match qrData seriesPattern of
                    None \<Rightarrow> invoiceData
                  | Some m \<Rightarrow> invoiceData\<lparr>invoiceNumber :=
                                Some (trim (interpolate (group m 1) @ str '' '' @ interpolate (group m 2)))\<rparr>)
      in case match qrData decimalPattern of
           None \<Rightarrow> Inr withNumber
         | Some m \<Rightarrow>
             (case group m 1 of
                None \<Rightarrow> Inl TypeError
              | Some v \<Rightarrow>
                  let tv = parseFloat (replace_first 44 46 v)
                  in if \<not> isNaN tv then Inr (withNumber\<lparr>totalValue := Some tv\<rparr>) else Inr withNumber))"

definition parseQRCodeData :: "jstring \<Rightarrow> error + invoice" where
  "parseQRCodeData qrData =
     (let invoiceData = foldl qr_field qr_initial (split 42 qrData)
      in if falsy_number (totalValue invoiceData) \<and> falsy (invoiceNumber invoiceData)
         then qr_fallback qrData invoiceData
         else Inr invoiceData)"

subsection \<open>Notions used in the statements about the parser\<close>

text \<open>\<open>binds n r\<close>: syntactically, every way to match \<open>r\<close> goes through group \<open>n\<close>.\<close>

fun binds :: "nat \<Rightarrow> re \<Rightarrow> bool" where
  "binds n (Grp k r) = (k = n \<or> binds n r)"
| "binds n (Seq a b) = (binds n a \<or> binds n b)"
| "binds n (Alt a b) = (binds n a \<and> binds n b)"
| "binds n (Rep r lo hi greedy) = (0 < lo \<and> binds n r)"
| "binds n (Ahead r) = binds n r"
| "binds n (Chr c) = False"
| "binds n (Cls its) = False"
| "binds n Eps = False"
| "binds n Bol = False"
| "binds n Eol = False"

definition captured :: "mstate \<Rightarrow> nat set" where
  "captured st = fst ` set (snd (snd st))"

fun join :: "jstring list \<Rightarrow> jstring" where
  "join [] = []"
| "join [s] = s"
| "join (s # t # ss) = s @ 42 # join (t # ss)"

text \<open>A segment that makes \<open>qr_field\<close> store a date.\<close>

definition sets_date :: "jstring \<Rightarrow> bool" where
  "sets_date field =
     (case split 58 field of
        key # v # _ \<Rightarrow> key \<noteq> [] \<and> trim key = str ''F'' \<and> length v = 8
      | _ \<Rightarrow> False)"


section \<open>The decode cascade: scanQRCode and tryQRScan\<close>

text \<open>
  The image libraries are outside the repository. What they return is a parameter
  of the model, and the model records which strategies and engines were run.
\<close>

datatype engine = JsQR | ZXingHybrid | ZXingGlobalHistogram

text \<open>The strategies, by the names \<open>scanQRCode\<close> gives them; \<open>Scale n\<close> is \<open>scale-n\<close>.\<close>

datatype strategy =
    Original | GreyscaleContrast | NormalizeContrast | Invert | Brightness | Posterize | Blur
  | NormalizeOnly | Scale nat | PosterizeAggressive | BrightNormalize | DarkContrast
  | PosterizeFirst | DoubleContrast | InvertNormalize

text \<open>A library call throws, or returns a text or nothing.\<close>

datatype reply = Throws | Returns "jstring option"

record scan_env =
  dimensions :: "(nat \<times> nat) option"
  prepares :: "strategy \<Rightarrow> bool"
  zxing_loads :: "strategy \<Rightarrow> bool"
  decodes :: "strategy \<Rightarrow> engine \<Rightarrow> reply"

text \<open>
  \<open>dimensions\<close>: width and height from the first \<open>Jimp.read(filePath)\<close>, \<open>None\<close> when it
  throws. \<open>prepares s\<close>: inside \<open>tryStrategy\<close>, \<open>Jimp.read\<close> and the strategy's
  \<open>processFn\<close> return. \<open>zxing_loads s\<close>: \<open>require('@zxing/library')\<close> and the luminance
  source are built. \<open>decodes s e\<close>: what engine \<open>e\<close> answers on the image processed by \<open>s\<close>.
\<close>

text \<open>
  \<open>tryQRScan\<close>: jsQR first, then ZXing with the hybrid binarizer, then with the global
  histogram binarizer. An exception of jsQR leaves the function (\<open>Inl\<close>); the ZXing
  calls sit in \<open>try\<close> blocks of their own. Returns the text and the engines run.
\<close>

definition text_of :: "reply \<Rightarrow> jstring option" where
  "text_of r = (case r of Throws \<Rightarrow> None | Returns None \<Rightarrow> None
                | Returns (Some t) \<Rightarrow> if t = [] then None else Some t)"

definition tryQRScan :: "scan_env \<Rightarrow> strategy \<Rightarrow> error + (jstring option \<times> engine list)" where
  "tryQRScan env s =
     (case decodes env s JsQR of
        Throws \<Rightarrow> Inl TypeError
      | Returns r \<Rightarrow>
          if \<not> falsy r then Inr (r, [JsQR])
          else if \<not> zxing_loads env s then Inr (None, [JsQR])
          else (case text_of (decodes env s ZXingHybrid) of
                  Some t \<Rightarrow> Inr (Some t, [JsQR, ZXingHybrid])
                | None \<Rightarrow>
                    (case text_of (decodes env s ZXingGlobalHistogram) of
                       Some t \<Rightarrow> Inr (Some t, [JsQR, ZXingHybrid, ZXingGlobalHistogram])
                     | None \<Rightarrow> Inr (None, [JsQR, ZXingHybrid, ZXingGlobalHistogram]))))"

text \<open>
  \<open>tryStrategy(name, processFn)\<close>: every exception is swallowed and gives \<open>null\<close>.
  The second component is the engines that were run.
\<close>

definition tryStrategy :: "scan_env \<Rightarrow> strategy \<Rightarrow> jstring option \<times> engine list" where
  "tryStrategy env s =
     (if \<not> prepares env s then (None, [])
      else (case tryQRScan env s of
              Inl e \<Rightarrow> (None, [JsQR])
            | Inr (code, engines) \<Rightarrow> if \<not> falsy code then (code, engines) else (None, engines)))"

type_synonym trace = "(strategy \<times> engine list) list"

text \<open>
  \<open>code = await tryStrategy(...); if (code) return code;\<close> after the statements before
  it: when they have returned a code already, nothing more is run.
\<close>

definition then_try :: "scan_env \<Rightarrow> jstring option \<times> trace \<Rightarrow> strategy \<Rightarrow> jstring option \<times> trace" where
  "then_try env found s =
     (case found of
        (Some code, tr) \<Rightarrow> (Some code, tr)
      | (None, tr) \<Rightarrow> (fst (tryStrategy env s), tr @ [(s, snd (tryStrategy env s))]))"

definition scanQRCode :: "scan_env \<Rightarrow> jstring option \<times> trace" where
  "scanQRCode env =
     (case dimensions env of
        None \<Rightarrow> (None, [])
      | Some (originalWidth, originalHeight) \<Rightarrow>
          let r = then_try env (None, []) Original;
              r = then_try env r GreyscaleContrast;
              r = then_try env r NormalizeContrast;
              r = then_try env r Invert;
              r = then_try env r Brightness;
              r = then_try env r Posterize;
              r = then_try env r Blur;
              r = then_try env r NormalizeOnly;
              r = (if originalWidth > 2000 \<or> originalHeight > 2000
                   then foldl (then_try env) r [Scale 1600, Scale 1200, Scale 800]
                   else r);
              r = then_try env r PosterizeAggressive;
              r = then_try env r BrightNormalize;
              r = then_try env r DarkContrast;
              r = then_try env r PosterizeFirst;
              r = then_try env r DoubleContrast;
              r = then_try env r InvertNormalize
          in r)"

section \<open>The document adapter: extractFromPDF\<close>

record extraction =
  extracted_text :: jstring
  method_name :: string
  data :: invoice

text \<open>
  The object literals of the two failure returns name \<open>totalValue\<close>, \<open>invoiceNumber\<close>,
  \<open>supplierName\<close> and \<open>customerNIF\<close>, all \<open>null\<close>; the keys they leave out read as
  \<open>undefined\<close>. Both are \<open>None\<close> here.
\<close>

definition no_fields :: invoice where
  "no_fields = \<lparr>totalValue = None, currency = None, invoiceNumber = None, invoiceDate = None,
                supplierName = None, customerNIF = None\<rparr>"

record pdf_env =
  page_loads :: bool
  renders :: "rat \<Rightarrow> bool"
  image_at :: "rat \<Rightarrow> scan_env"

text \<open>
  \<open>page_loads\<close>: the libraries load, the file is read and \<open>getPage(1)\<close> resolves.
  \<open>renders scale\<close>: the page is rendered at \<open>scale\<close> and written to the temporary file.
  \<open>image_at scale\<close>: what the image libraries do with that file.
\<close>

definition scales :: "rat list" where
  "scales = [4.0, 3.5, 3.0, 2.5, 2.0]"

text \<open>
  The body of \<open>for (const scale of scales)\<close>: \<open>Some\<close> is the \<open>return\<close> inside the loop;
  \<open>None\<close> is falling out of the \<open>try\<close> or into \<open>catch (scaleError)\<close>.
\<close>

definition try_scale :: "pdf_env \<Rightarrow> rat \<Rightarrow> extraction option" where
  "try_scale env scale =
     (if \<not> renders env scale then None
      else (case fst (scanQRCode (image_at env scale)) of
              None \<Rightarrow> None
            | Some qrData \<Rightarrow>
                if qrData = [] then None
                else (case parseQRCodeData qrData of
                        Inl e \<Rightarrow> None
                      | Inr invoiceData \<Rightarrow>
                          Some \<lparr>extracted_text = qrData, method_name = ''qr-code-pdf'', data = invoiceData\<rparr>)))"

text \<open>The loop, with the scales it has tried.\<close>

fun scale_loop :: "pdf_env \<Rightarrow> rat list \<Rightarrow> rat list \<Rightarrow> extraction option \<times> rat list" where
  "scale_loop env [] tried = (None, tried)"
| "scale_loop env (scale # rest) tried =
     (case try_scale env scale of
        Some result \<Rightarrow> (Some result, tried @ [scale])
      | None \<Rightarrow> scale_loop env rest (tried @ [scale]))"

definition extractFromPDF :: "pdf_env \<Rightarrow> extraction \<times> rat list" where
  "extractFromPDF env =
     (if \<not> page_loads env
      then (\<lparr>extracted_text = [], method_name = ''qr-code-pdf-error'', data = no_fields\<rparr>, [])
      else (case scale_loop env scales [] of
              (Some result, tried) \<Rightarrow> (result, tried)
            | (None, tried) \<Rightarrow> (\<lparr>extracted_text = [], method_name = ''qr-code-pdf-failed'', data = no_fields\<rparr>, tried)))"

section \<open>Notions used in the statements about the cascade and the adapter\<close>

text \<open>The strategies in the order of the source, for an image of the given size.\<close>

definition strategy_order :: "nat \<Rightarrow> nat \<Rightarrow> strategy list" where
  "strategy_order w h =
     [Original, GreyscaleContrast, NormalizeContrast, Invert, Brightness, Posterize, Blur, NormalizeOnly]
     @ (if w > 2000 \<or> h > 2000 then [Scale 1600, Scale 1200, Scale 800] else [])
     @ [PosterizeAggressive, BrightNormalize, DarkContrast, PosterizeFirst, DoubleContrast, InvertNormalize]"

definition failing :: "scan_env \<Rightarrow> strategy \<Rightarrow> bool" where
  "failing env s \<longleftrightarrow> fst (tryStrategy env s) = None"

text \<open>What a first-success search over a list of strategies returns and runs.\<close>

definition first_success :: "scan_env \<Rightarrow> strategy list \<Rightarrow> jstring option \<times> trace" where
  "first_success env ss =
     (case dropWhile (failing env) ss of [] \<Rightarrow> None | s # _ \<Rightarrow> fst (tryStrategy env s),
      map (\<lambda>s. (s, snd (tryStrategy env s)))
        (takeWhile (failing env) ss @ take 1 (dropWhile (failing env) ss)))"

text \<open>A large image that only \<open>posterize-aggressive\<close> makes readable, and then only for jsQR.\<close>

definition only_posterize_aggressive :: scan_env where
  "only_posterize_aggressive =
     \<lparr>dimensions = Some (3000, 2000), prepares = (\<lambda>s. True), zxing_loads = (\<lambda>s. True),
      decodes = (\<lambda>s e. if s = PosterizeAggressive \<and> e = JsQR then Returns (Some (str ''A:1*O:55,20''))
                        else Returns None)\<rparr>"


definition scale_fails :: "pdf_env \<Rightarrow> rat \<Rightarrow> bool" where
  "scale_fails env scale \<longleftrightarrow> \<not> renders env scale \<or> fst (scanQRCode (image_at env scale)) = None"

text \<open>An image nothing can be read from.\<close>

definition blank_image :: scan_env where
  "blank_image =
     \<lparr>dimensions = Some (1240, 1754), prepares = (\<lambda>s. True), zxing_loads = (\<lambda>s. True),
      decodes = (\<lambda>s e. Returns None)\<rparr>"

text \<open>
  A document whose page fails to render at 4.0, shows nothing at 3.5, 3.0 and 2.5,
  and is read at 2.0; one that is never read; one that cannot be loaded.
\<close>

definition readable_at_2 :: pdf_env where
  "readable_at_2 =
     \<lparr>page_loads = True, renders = (\<lambda>scale. scale \<noteq> 4),
      image_at = (\<lambda>scale. if scale = 2 then only_posterize_aggressive else blank_image)\<rparr>"

definition unreadable :: pdf_env where
  "unreadable = \<lparr>page_loads = True, renders = (\<lambda>scale. scale \<noteq> 3), image_at = (\<lambda>scale. blank_image)\<rparr>"

definition broken_file :: pdf_env where
  "broken_file = \<lparr>page_loads = False, renders = (\<lambda>scale. True), image_at = (\<lambda>scale. blank_image)\<rparr>"

section \<open>Properties of the job queue\<close>

lemma startProcessors_idle:
  "\<not> (activeProcessors s < MAX_CONCURRENT_PROCESSORS \<and> processingQueue s \<noteq> []) \<Longrightarrow> startProcessors s = s"
  by (subst startProcessors.simps) auto

lemma startProcessors_saturates:
  "\<not> (activeProcessors (startProcessors s) < MAX_CONCURRENT_PROCESSORS \<and> processingQueue (startProcessors s) \<noteq> [])"
proof (induction s rule: startProcessors.induct)
  case (1 s)
  show ?case
  proof (cases "activeProcessors s < MAX_CONCURRENT_PROCESSORS \<and> processingQueue s \<noteq> []")
    case True
    then have "startProcessors s = startProcessors (processQueue_enter (s\<lparr>activeProcessors := activeProcessors s + 1\<rparr>))"
      by (subst startProcessors.simps) auto
    with 1 True show ?thesis by simp
  next
    case False
    then show ?thesis by (simp add: startProcessors_idle)
  qed
qed

lemma startProcessors_effect:
  "startProcessors s =
     s\<lparr>processingQueue := drop (started s) (processingQueue s),
       activeProcessors := activeProcessors s + int (started s),
       workers := workers s @ map Extracting (take (started s) (processingQueue s))\<rparr>"
proof (induction s rule: startProcessors.induct)
  case (1 s)
  show ?case
  proof (cases "activeProcessors s < MAX_CONCURRENT_PROCESSORS \<and> processingQueue s \<noteq> []")
    case True
    then obtain j q where q: "processingQueue s = j # q" by (cases "processingQueue s") auto
    let ?t = "processQueue_enter (s\<lparr>activeProcessors := activeProcessors s + 1\<rparr>)"
    have t: "?t = s\<lparr>activeProcessors := activeProcessors s + 1, processingQueue := q, workers := workers s @ [Extracting j]\<rparr>"
      by (simp add: processQueue_enter_def q)
    have st: "started s = Suc (started ?t)"
      using True by (simp add: t started_def q) 
    have "startProcessors s = startProcessors ?t"
      using True by (subst startProcessors.simps) auto
    also have "\<dots> = ?t\<lparr>processingQueue := drop (started ?t) (processingQueue ?t),
       activeProcessors := activeProcessors ?t + int (started ?t),
       workers := workers ?t @ map Extracting (take (started ?t) (processingQueue ?t))\<rparr>"
      using 1 True by simp
    also have "\<dots> = s\<lparr>processingQueue := drop (started s) (processingQueue s),
       activeProcessors := activeProcessors s + int (started s),
       workers := workers s @ map Extracting (take (started s) (processingQueue s))\<rparr>"
      unfolding st by (simp add: t q)
    finally show ?thesis .
  next
    case False
    then have "started s = 0" by (auto simp: started_def)
    with False show ?thesis by (simp add: startProcessors_idle)
  qed
qed

lemma startProcessors_establishes:
  assumes "activeProcessors s = int (length (workers s))"
    and "activeProcessors s \<le> MAX_CONCURRENT_PROCESSORS"
  shows "pool_invariant (startProcessors s)"
proof -
  have sat: "\<not> (activeProcessors (startProcessors s) < MAX_CONCURRENT_PROCESSORS
               \<and> processingQueue (startProcessors s) \<noteq> [])"
    by (rule startProcessors_saturates)
  have eff: "activeProcessors (startProcessors s) = activeProcessors s + int (started s)"
    "length (workers (startProcessors s)) = length (workers s) + started s"
    by (subst startProcessors_effect, simp add: started_def)+
  have le: "activeProcessors s + int (started s) \<le> MAX_CONCURRENT_PROCESSORS"
    using assms(2) by (simp add: started_def)
  show ?thesis
    unfolding pool_invariant_def using sat eff le assms(1) by auto
qed

lemma finally_block_eq: "finally_block s = startProcessors (decrement s)"
  by (simp add: finally_block_def Let_def startProcessors_idle)

lemma finally_block_establishes:
  assumes "pool_invariant s" and "i < length (workers s)"
  shows "pool_invariant (finally_block (remove_worker i s))"
proof -
  let ?t = "decrement (remove_worker i s)"
  have "activeProcessors ?t = int (length (workers ?t))"
    using assms by (auto simp: pool_invariant_def decrement_def remove_worker_def)
  moreover have "activeProcessors ?t \<le> MAX_CONCURRENT_PROCESSORS"
    using assms by (auto simp: pool_invariant_def decrement_def remove_worker_def)
  ultimately show ?thesis
    unfolding finally_block_eq by (rule startProcessors_establishes)
qed

lemma reachable_invariant: "reachable s \<Longrightarrow> pool_invariant s"
proof (induction rule: reachable.induct)
  case r_initial
  show ?case by (simp add: pool_invariant_def initial_def MAX_CONCURRENT_PROCESSORS_def)
next
  case (r_enqueue s j)
  then show ?case
    unfolding addToQueue_def
    by (intro startProcessors_establishes) (simp_all add: pool_invariant_def)
next
  case (r_start s)
  then show ?case
    by (intro startProcessors_establishes) (simp_all add: pool_invariant_def)
next
  case (r_settled s i j out)
  then show ?case
    by (cases out) (auto simp: pool_invariant_def job_settled_def)
next
  case (r_timer s i d)
  show ?case
  proof (cases "processingQueue s")
    case Nil
    with r_timer show ?thesis
      by (simp add: timer_fired_def finally_block_establishes)
  next
    case (Cons j q)
    with r_timer show ?thesis
      by (auto simp: timer_fired_def pool_invariant_def)
  qed
next
  case (r_crashed s i)
  then show ?case
    by (simp add: processor_crashed_def finally_block_establishes)
qed

lemma reachable_enqueue_all:
  "reachable s \<Longrightarrow> reachable (foldl (\<lambda>s n. addToQueue \<lparr>itemId = n, boardId = b\<rparr> s) s ns)"
  by (induction ns arbitrary: s) (auto intro: r_enqueue)

lemma reachable_burst: "reachable burst"
  unfolding burst_def by (rule reachable_enqueue_all) (rule r_initial)

lemma burst_value:
  "burst = \<lparr>processingQueue = [\<lparr>itemId = 111, boardId = 7\<rparr>, \<lparr>itemId = 112, boardId = 7\<rparr>],
            activeProcessors = 10,
            workers = map (\<lambda>n. Extracting \<lparr>itemId = n, boardId = 7\<rparr>) [101, 102, 103, 104, 105, 106, 107, 108, 109, 110]\<rparr>"
  by (simp add: burst_def initial_def addToQueue_def startProcessors.simps [of "\<lparr>processingQueue = q, activeProcessors = a, workers = w\<rparr>" for q a w]
        processQueue_enter_def MAX_CONCURRENT_PROCESSORS_def)

text \<open>
  Claim C1. Every way a worker leaves, by finding the queue empty after its timer or
  by an exception that reaches \<open>catch (processorError)\<close>, has the effect of
  decrementing \<open>activeProcessors\<close> and then running \<open>startProcessors\<close>, whatever
  the counter was before. The test around the call in the \<open>finally\<close> block is the
  loop condition of \<open>startProcessors\<close> itself, so it changes nothing, and in a
  reachable state its capacity part is always true after the decrement. In no
  reachable state is the queue non-empty while no worker is active.
\<close>

theorem worker_exit_always_replenishes:
  "processor_crashed i s = startProcessors (decrement (remove_worker i s)) \<and>
   (processingQueue s = [] \<longrightarrow> timer_fired i s = startProcessors (decrement (remove_worker i s))) \<and>
   (reachable s \<longrightarrow> activeProcessors (decrement (remove_worker i s)) < MAX_CONCURRENT_PROCESSORS) \<and>
   (reachable s \<longrightarrow> \<not> (processingQueue s \<noteq> [] \<and> (activeProcessors s = 0 \<or> workers s = [])))"
proof (intro conjI impI)
  show "processor_crashed i s = startProcessors (decrement (remove_worker i s))"
    by (simp add: processor_crashed_def finally_block_eq)
next
  assume "processingQueue s = []"
  then show "timer_fired i s = startProcessors (decrement (remove_worker i s))"
    by (simp add: timer_fired_def finally_block_eq)
next
  assume "reachable s"
  then have "pool_invariant s" by (rule reachable_invariant)
  then show "activeProcessors (decrement (remove_worker i s)) < MAX_CONCURRENT_PROCESSORS"
    by (simp add: pool_invariant_def decrement_def remove_worker_def)
next
  assume "reachable s"
  then have "pool_invariant s" by (rule reachable_invariant)
  then show "\<not> (processingQueue s \<noteq> [] \<and> (activeProcessors s = 0 \<or> workers s = []))"
    by (auto simp: pool_invariant_def MAX_CONCURRENT_PROCESSORS_def)
qed

lemma one_extracting_value:
  "addToQueue \<lparr>itemId = 101, boardId = 7\<rparr> initial =
     \<lparr>processingQueue = [], activeProcessors = 1, workers = [Extracting \<lparr>itemId = 101, boardId = 7\<rparr>]\<rparr>"
  by (simp add: initial_def addToQueue_def startProcessors.simps [of "\<lparr>processingQueue = q, activeProcessors = a, workers = w\<rparr>" for q a w]
        processQueue_enter_def MAX_CONCURRENT_PROCESSORS_def)

lemma one_delaying_value:
  "one_delaying = \<lparr>processingQueue = [], activeProcessors = 1, workers = [Delaying 500]\<rparr>"
  by (simp add: one_delaying_def one_extracting_value job_settled_def)

lemma reachable_one_delaying: "reachable one_delaying"
  unfolding one_delaying_def
  by (rule r_settled [OF r_enqueue [OF r_initial], where j = "\<lparr>itemId = 101, boardId = 7\<rparr>"])
     (simp_all add: one_extracting_value)

theorem worker_exit_always_replenishes_witness:
  "reachable one_delaying \<and> processingQueue one_delaying = [] \<and>
   timer_fired 0 one_delaying = initial \<and>
   reachable burst \<and> processingQueue burst \<noteq> [] \<and> activeProcessors burst \<noteq> 0 \<and> workers burst \<noteq> []"
proof -
  have q: "processingQueue one_delaying = []" by (simp add: one_delaying_value)
  have "timer_fired 0 one_delaying = startProcessors (decrement (remove_worker 0 one_delaying))"
    using worker_exit_always_replenishes [of 0 one_delaying] q by blast
  also have "\<dots> = initial"
    by (simp add: one_delaying_value decrement_def remove_worker_def initial_def startProcessors_idle)
  finally have t: "timer_fired 0 one_delaying = initial" .
  have b: "processingQueue burst \<noteq> []" by (simp add: burst_value)
  from worker_exit_always_replenishes [of 0 burst] reachable_burst b
  have "activeProcessors burst \<noteq> 0 \<and> workers burst \<noteq> []" by blast
  with reachable_one_delaying q t reachable_burst b show ?thesis by blast
qed

text \<open>
  Claim C2. In every reachable state \<open>activeProcessors\<close> is at most
  \<open>MAX_CONCURRENT_PROCESSORS\<close> and equals the number of live workers. On an empty
  queue \<open>startProcessors\<close> does nothing; in general it starts \<open>started s\<close> workers,
  never more than the queue is long, and each of them takes one job off the front.
\<close>

theorem active_workers_bounded:
  "(reachable s \<longrightarrow>
      activeProcessors s \<le> MAX_CONCURRENT_PROCESSORS \<and> activeProcessors s = int (length (workers s))) \<and>
   (processingQueue s = [] \<longrightarrow> startProcessors s = s) \<and>
   started s \<le> length (processingQueue s) \<and>
   workers (startProcessors s) = workers s @ map Extracting (take (started s) (processingQueue s)) \<and>
   processingQueue (startProcessors s) = drop (started s) (processingQueue s)"
proof (intro conjI impI)
  assume "reachable s"
  then have "pool_invariant s" by (rule reachable_invariant)
  then show "activeProcessors s \<le> MAX_CONCURRENT_PROCESSORS" "activeProcessors s = int (length (workers s))"
    by (simp_all add: pool_invariant_def)
next
  assume "processingQueue s = []"
  then show "startProcessors s = s" by (simp add: startProcessors_idle)
next
  show "started s \<le> length (processingQueue s)" by (simp add: started_def)
next
  show "workers (startProcessors s) = workers s @ map Extracting (take (started s) (processingQueue s))"
    by (subst startProcessors_effect) simp
next
  show "processingQueue (startProcessors s) = drop (started s) (processingQueue s)"
    by (subst startProcessors_effect) simp
qed

theorem active_workers_bounded_witness:
  "reachable burst \<and> activeProcessors burst = 10 \<and> activeProcessors burst \<le> MAX_CONCURRENT_PROCESSORS \<and>
   length (workers burst) = 10 \<and>
   processingQueue initial = [] \<and> startProcessors initial = initial"
proof -
  have "activeProcessors burst \<le> MAX_CONCURRENT_PROCESSORS \<and> activeProcessors burst = int (length (workers burst))"
    using active_workers_bounded [of burst] reachable_burst by blast
  moreover have "activeProcessors burst = 10" by (simp add: burst_value)
  moreover have "processingQueue initial = []" by (simp add: initial_def)
  moreover from this have "startProcessors initial = initial"
    using active_workers_bounded [of initial] by blast
  ultimately show ?thesis using reachable_burst by simp
qed

text \<open>
  Claim C6. When the job of worker \<open>i\<close> fails with any error \<open>e\<close>, the worker
  stays in the pool, parked at the 500 ms timer; the queue and the counter are as
  they were, the state is the one a success would give, and when the timer fires
  the same worker takes the next job of the queue.
\<close>

theorem job_failure_is_isolated:
  assumes "i < length (workers s)" and "workers s ! i = Extracting j"
  shows "workers (job_settled i (Rejected e) s) = (workers s)[i := Delaying 500] \<and>
         workers (job_settled i (Rejected e) s) ! i = Delaying 500 \<and>
         processingQueue (job_settled i (Rejected e) s) = processingQueue s \<and>
         activeProcessors (job_settled i (Rejected e) s) = activeProcessors s \<and>
         job_settled i (Rejected e) s = job_settled i Resolved s \<and>
         (\<forall>j' q. processingQueue s = j' # q \<longrightarrow>
            timer_fired i (job_settled i (Rejected e) s) =
              s\<lparr>processingQueue := q, workers := (workers s)[i := Extracting j']\<rparr>)"
  using assms by (simp add: job_settled_def timer_fired_def)

theorem job_failure_is_isolated_witness:
  "(0::nat) < length (workers burst) \<and> workers burst ! 0 = Extracting \<lparr>itemId = 101, boardId = 7\<rparr> \<and>
   workers (job_settled 0 (Rejected ''boom'') burst) ! 0 = Delaying 500 \<and>
   processingQueue (job_settled 0 (Rejected ''boom'') burst) =
     [\<lparr>itemId = 111, boardId = 7\<rparr>, \<lparr>itemId = 112, boardId = 7\<rparr>] \<and>
   workers (timer_fired 0 (job_settled 0 (Rejected ''boom'') burst)) ! 0 = Extracting \<lparr>itemId = 111, boardId = 7\<rparr>"
proof -
  let ?s' = "job_settled 0 (Rejected ''boom'') burst"
  have h1: "0 < length (workers burst)"
    and h2: "workers burst ! 0 = Extracting \<lparr>itemId = 101, boardId = 7\<rparr>"
    by (simp_all add: burst_value)
  have q: "processingQueue burst = [\<lparr>itemId = 111, boardId = 7\<rparr>, \<lparr>itemId = 112, boardId = 7\<rparr>]"
    by (simp add: burst_value)
  note iso = job_failure_is_isolated [OF h1 h2, of "''boom''"]
  from iso have a: "workers ?s' ! 0 = Delaying 500" by blast
  from iso have "processingQueue ?s' = processingQueue burst" by blast
  with q have b: "processingQueue ?s' = [\<lparr>itemId = 111, boardId = 7\<rparr>, \<lparr>itemId = 112, boardId = 7\<rparr>]"
    by simp
  from iso q have "timer_fired 0 ?s' =
      burst\<lparr>processingQueue := [\<lparr>itemId = 112, boardId = 7\<rparr>],
            workers := (workers burst)[0 := Extracting \<lparr>itemId = 111, boardId = 7\<rparr>]\<rparr>"
    by blast
  then have c: "workers (timer_fired 0 ?s') ! 0 = Extracting \<lparr>itemId = 111, boardId = 7\<rparr>"
    using h1 by simp
  from h1 h2 a b c show ?thesis by blast
qed

section \<open>Properties of the field parser\<close>

subsection \<open>Groups that every match captures\<close>

lemma rep_keeps:
  assumes f: "\<And>st st'. st' \<in> set (f st) \<Longrightarrow> captured st \<subseteq> captured st'"
  shows "st' \<in> set (rep f lo hi greedy fuel st) \<Longrightarrow> captured st \<subseteq> captured st'"
proof (induction fuel arbitrary: lo hi st)
  case 0
  then show ?case by (auto split: if_splits)
next
  case (Suc fuel)
  from Suc.prems consider (stop) "st' = st"
    | (again) st1 where "st1 \<in> set (f st)"
        "st' \<in> set (rep f (lo - 1) (map_option (\<lambda>h. h - 1) hi) greedy fuel st1)"
    by (auto simp: Let_def split: if_splits)
  then show ?case
  proof cases
    case stop
    then show ?thesis by simp
  next
    case again
    from f [OF again(1)] Suc.IH [OF again(2)] show ?thesis by blast
  qed
qed

lemma matches_keeps: "st' \<in> set (matches fl r st) \<Longrightarrow> captured st \<subseteq> captured st'"
proof (induction r arbitrary: st st')
  case (Chr c)
  obtain p xs cs where st: "st = (p, xs, cs)" by (cases st)
  from Chr show ?case by (cases xs) (auto simp: st captured_def split: if_splits)
next
  case (Cls its)
  obtain p xs cs where st: "st = (p, xs, cs)" by (cases st)
  from Cls show ?case by (cases xs) (auto simp: st captured_def split: if_splits)
next
  case Eps
  then show ?case by simp
next
  case (Seq a b)
  from Seq.prems obtain st1 where "st1 \<in> set (matches fl a st)" "st' \<in> set (matches fl b st1)"
    by auto
  with Seq.IH show ?case by blast
next
  case (Alt a b)
  from Alt.prems have "st' \<in> set (matches fl a st) \<or> st' \<in> set (matches fl b st)" by simp
  with Alt.IH show ?case by blast
next
  case (Rep r lo hi greedy)
  from Rep.prems have "st' \<in> set (rep (matches fl r) lo hi greedy (lo + length (fst (snd st))) st)"
    by simp
  then show ?case by (rule rep_keeps [rotated]) (rule Rep.IH)
next
  case (Grp n r)
  obtain p xs cs where st: "st = (p, xs, cs)" by (cases st)
  from Grp.prems obtain p' ys cs' where
    m: "(p', ys, cs') \<in> set (matches fl r st)" and
    st': "st' = (p', ys, (n, take (length xs - length ys) xs) # cs')"
    by (auto simp: st)
  from Grp.IH [OF m] show ?case by (auto simp: st' captured_def)
next
  case (Ahead r)
  obtain p xs cs where st: "st = (p, xs, cs)" by (cases st)
  from Ahead.prems obtain p' ys cs' rest where
    m: "matches fl r st = (p', ys, cs') # rest" and st': "st' = (p, xs, cs')"
    by (cases "matches fl r (p, xs, cs)") (auto simp: st)
  from m have "(p', ys, cs') \<in> set (matches fl r st)" by simp
  from Ahead.IH [OF this] show ?case by (simp add: st' captured_def)
next
  case Bol
  obtain p xs cs where st: "st = (p, xs, cs)" by (cases st)
  from Bol show ?case by (cases p) (auto simp: st split: if_splits)
next
  case Eol
  obtain p xs cs where st: "st = (p, xs, cs)" by (cases st)
  from Eol show ?case by (cases xs) (auto simp: st split: if_splits)
qed

lemma matches_binds: "st' \<in> set (matches fl r st) \<Longrightarrow> binds n r \<Longrightarrow> n \<in> captured st'"
proof (induction r arbitrary: st st')
  case (Seq a b)
  from Seq.prems(1) obtain st1 where m1: "st1 \<in> set (matches fl a st)" and m2: "st' \<in> set (matches fl b st1)"
    by auto
  from Seq.prems(2) consider "binds n a" | "binds n b" by auto
  then show ?case
  proof cases
    case 1
    with Seq.IH(1) m1 have "n \<in> captured st1" by blast
    with matches_keeps [OF m2] show ?thesis by blast
  next
    case 2
    with Seq.IH(2) m2 show ?thesis by blast
  qed
next
  case (Alt a b)
  from Alt.prems(1) have "st' \<in> set (matches fl a st) \<or> st' \<in> set (matches fl b st)" by simp
  moreover from Alt.prems(2) have "binds n a" "binds n b" by simp_all
  ultimately show ?case using Alt.IH by blast
next
  case (Rep r lo hi greedy)
  from Rep.prems(2) have lo: "0 < lo" and b: "binds n r" by auto
  let ?fuel = "lo + length (fst (snd st))"
  from lo obtain k where k: "?fuel = Suc k" by (cases ?fuel) auto
  from Rep.prems(1) have "st' \<in> set (rep (matches fl r) lo hi greedy (Suc k) st)"
    by (simp add: k)
  with lo obtain st1 where 1: "st1 \<in> set (matches fl r st)"
    and 2: "st' \<in> set (rep (matches fl r) (lo - 1) (map_option (\<lambda>h. h - 1) hi) greedy k st1)"
    by (auto simp: Let_def split: if_splits)
  from Rep.IH [OF 1 b] have "n \<in> captured st1" .
  moreover from 2 have "captured st1 \<subseteq> captured st'"
    by (rule rep_keeps [rotated]) (rule matches_keeps)
  ultimately show ?case by blast
next
  case (Grp k r)
  obtain p xs cs where st: "st = (p, xs, cs)" by (cases st)
  from Grp.prems(1) obtain p' ys cs' where
    m: "(p', ys, cs') \<in> set (matches fl r st)" and
    st': "st' = (p', ys, (k, take (length xs - length ys) xs) # cs')"
    by (auto simp: st)
  show ?case
  proof (cases "k = n")
    case True
    then show ?thesis by (simp add: st' captured_def)
  next
    case False
    with Grp.prems(2) have "binds n r" by simp
    from Grp.IH [OF m this] show ?thesis by (auto simp: st' captured_def)
  qed
next
  case (Ahead r)
  obtain p xs cs where st: "st = (p, xs, cs)" by (cases st)
  from Ahead.prems(1) obtain p' ys cs' rest where
    m: "matches fl r st = (p', ys, cs') # rest" and st': "st' = (p, xs, cs')"
    by (cases "matches fl r (p, xs, cs)") (auto simp: st)
  from m have "(p', ys, cs') \<in> set (matches fl r st)" by simp
  from Ahead.IH [OF this] Ahead.prems(2) show ?case by (simp add: st' captured_def)
qed simp_all

lemma search_binds: "search fl r p xs = Some m \<Longrightarrow> binds n r \<Longrightarrow> group m n \<noteq> None"
proof (induction xs arbitrary: p)
  case Nil
  from Nil.prems(1) obtain p' ys cs rest where
    ms: "matches fl r (p, [], []) = (p', ys, cs) # rest" and m: "m = \<lparr>whole = [], groups = cs\<rparr>"
    by (auto split: list.splits)
  from ms have "(p', ys, cs) \<in> set (matches fl r (p, [], []))" by simp
  from matches_binds [OF this Nil.prems(2)] show ?case
    by (auto simp: captured_def group_def m map_of_eq_None_iff)
next
  case (Cons x xs)
  show ?case
  proof (cases "matches fl r (p, x # xs, [])")
    case Nil
    with Cons.prems(1) have "search fl r (Some x) xs = Some m" by simp
    from Cons.IH [OF this Cons.prems(2)] show ?thesis .
  next
    case (Cons st rest)
    obtain p' ys cs where st: "st = (p', ys, cs)" by (cases st)
    from Cons Cons.prems(1) have m: "groups m = cs" by (auto simp: st)
    from Cons have "(p', ys, cs) \<in> set (matches fl r (p, x # xs, []))" by (simp add: st)
    from matches_binds [OF this Cons.prems(2)] show ?thesis
      by (auto simp: captured_def group_def m map_of_eq_None_iff)
  qed
qed

lemma match_binds: "match s pat = Some m \<Longrightarrow> binds n (fst pat) \<Longrightarrow> group m n \<noteq> None"
  unfolding match_def by (rule search_binds)

lemma binds_lit [simp]: "\<not> binds n (lit s)"
  unfolding lit_def by (induction s) auto

lemma binds_seq [simp]: "binds n (seq rs) = list_ex (binds n) rs"
  by (induction rs rule: seq.induct) auto

lemma binds_alts [simp]: "binds n (alts rs) = (rs \<noteq> [] \<and> list_all (binds n) rs)"
  by (induction rs rule: alts.induct) auto

lemma binds_quantifiers [simp]:
  "binds n (many0 r) = False" "binds n (many1 r) = binds n r" "binds n (many1_lazy r) = binds n r"
  "binds n (optional r) = False" "binds n (between lo hi r) = (0 < lo \<and> binds n r)"
  "binds n (at_least lo r) = (0 < lo \<and> binds n r)"
  by (simp_all add: many0_def many1_def many1_lazy_def optional_def between_def at_least_def)

lemma totalPatterns_bind: "\<forall>pat \<in> set totalPatterns. binds 1 (fst pat)"
  by (simp add: totalPatterns_def)

lemma currencyPattern_binds: "binds 1 (fst currencyPattern)"
  by (simp add: currencyPattern_def)

lemma seriesPattern_binds: "binds 1 (fst seriesPattern)" "binds 2 (fst seriesPattern)"
  by (simp_all add: seriesPattern_def)

lemma invoiceNumberPatterns_bind: "\<forall>pat \<in> set invoiceNumberPatterns. binds 1 (fst pat)"
  by (simp add: invoiceNumberPatterns_def seriesPattern_def)

lemma decimalPattern_binds: "binds 1 (fst decimalPattern)"
  by (simp add: decimalPattern_def)

subsection \<open>The parsers return a record for every input\<close>

lemma total_loop_total:
  "\<forall>pat \<in> set pats. binds 1 (fst pat) \<Longrightarrow> \<exists>v. total_loop pats t = Inr v"
proof (induction pats)
  case Nil
  show ?case by simp
next
  case (Cons pat pats)
  then obtain v where v: "total_loop pats t = Inr v" by auto
  show ?case
  proof (cases "match t pat")
    case None
    with v show ?thesis by simp
  next
    case (Some m)
    from Cons.prems have "binds 1 (fst pat)" by simp
    from match_binds [OF Some this] obtain g where "group m 1 = Some g" by auto
    with Some v show ?thesis by (simp add: Let_def)
  qed
qed

lemma extract_currency_total: "\<exists>v. extract_currency t = Inr v"
proof (cases "match t currencyPattern")
  case None
  then show ?thesis by (simp add: extract_currency_def)
next
  case (Some m)
  from match_binds [OF Some currencyPattern_binds] obtain g where "group m 1 = Some g" by auto
  with Some show ?thesis by (simp add: extract_currency_def split: option.splits)
qed

lemma invoice_loop_total:
  "\<forall>pat \<in> set pats. binds 1 (fst pat) \<Longrightarrow> \<exists>v. invoice_loop pats t = Inr v"
proof (induction pats)
  case Nil
  show ?case by simp
next
  case (Cons pat pats)
  then obtain v where v: "invoice_loop pats t = Inr v" by auto
  show ?case
  proof (cases "match t pat")
    case None
    with v show ?thesis by simp
  next
    case (Some m)
    from Cons.prems have "binds 1 (fst pat)" by simp
    from match_binds [OF Some this] obtain g where "group m 1 = Some g" by auto
    with Some show ?thesis by simp
  qed
qed

lemma qr_field_keeps:
  "currency (qr_field invoiceData field) = currency invoiceData"
  "supplierName (qr_field invoiceData field) = supplierName invoiceData"
  by (simp_all add: qr_field_def Let_def split: list.splits)

lemma foldl_qr_field_keeps:
  "currency (foldl qr_field invoiceData segs) = currency invoiceData"
  "supplierName (foldl qr_field invoiceData segs) = supplierName invoiceData"
  by (induction segs arbitrary: invoiceData) (simp_all add: qr_field_keeps)

lemma qr_fallback_total:
  "\<exists>r. qr_fallback qrData invoiceData = Inr r \<and> currency r = currency invoiceData \<and>
       supplierName r = supplierName invoiceData \<and> invoiceDate r = invoiceDate invoiceData \<and>
       customerNIF r = customerNIF invoiceData"
proof (cases "match qrData decimalPattern")
  case None
  then show ?thesis by (simp add: qr_fallback_def Let_def split: option.splits)
next
  case (Some m)
  from match_binds [OF Some decimalPattern_binds] obtain g where "group m 1 = Some g" by auto
  with Some show ?thesis by (simp add: qr_fallback_def Let_def split: option.splits)
qed

lemma parseQRCodeData_total:
  "\<exists>r. parseQRCodeData qrData = Inr r \<and> currency r = Some (str ''EUR'') \<and> supplierName r = None \<and>
       invoiceDate r = invoiceDate (foldl qr_field qr_initial (split 42 qrData)) \<and>
       customerNIF r = customerNIF (foldl qr_field qr_initial (split 42 qrData))"
proof -
  let ?inv = "foldl qr_field qr_initial (split 42 qrData)"
  have keep: "currency ?inv = Some (str ''EUR'')" "supplierName ?inv = None"
    by (simp_all add: foldl_qr_field_keeps qr_initial_def)
  show ?thesis
  proof (cases "falsy_number (totalValue ?inv) \<and> falsy (invoiceNumber ?inv)")
    case True
    with qr_fallback_total [of qrData ?inv] keep show ?thesis
      by (auto simp: parseQRCodeData_def Let_def)
  next
    case False
    with keep show ?thesis by (auto simp: parseQRCodeData_def Let_def)
  qed
qed

subsection \<open>Segments and dates\<close>

lemma split_none: "c \<notin> set s \<Longrightarrow> split c s = [s]"
  by (induction s) auto

lemma split_first: "c \<notin> set s \<Longrightarrow> split c (s @ c # t) = s # split c t"
  by (induction s) auto

lemma split_join: "ss \<noteq> [] \<Longrightarrow> \<forall>s \<in> set ss. 42 \<notin> set s \<Longrightarrow> split 42 (join ss) = ss"
  by (induction ss rule: join.induct) (simp_all add: split_none split_first)

lemma qr_field_no_date: "\<not> sets_date field \<Longrightarrow> invoiceDate (qr_field invoiceData field) = invoiceDate invoiceData"
  by (auto simp: qr_field_def sets_date_def Let_def split: list.splits)

lemma foldl_qr_field_no_date:
  "\<forall>f \<in> set segs. \<not> sets_date f \<Longrightarrow> invoiceDate (foldl qr_field invoiceData segs) = invoiceDate invoiceData"
  by (induction segs arbitrary: invoiceData) (simp_all add: qr_field_no_date)

lemma trim_F: "trim (str ''F'') = str ''F''"
  by (simp add: trim_def str_def isWhiteSpace_def)

lemma qr_field_date:
  assumes "length d = 8" and "58 \<notin> set d"
  shows "invoiceDate (qr_field invoiceData (str ''F:'' @ d)) =
           Some (take 4 d @ str ''-'' @ take 2 (drop 4 d) @ str ''-'' @ drop 6 d)"
proof -
  have "str ''F:'' @ d = str ''F'' @ 58 # d" by (simp add: str_def)
  moreover have "58 \<notin> set (str ''F'')" by (simp add: str_def)
  ultimately have s: "split 58 (str ''F:'' @ d) = [str ''F'', d]"
    using assms(2) by (simp add: split_first split_none del: split.simps)
  have ne: "d \<noteq> []" using assms(1) by auto
  have k: "str ''F'' \<noteq> []" "str ''F'' \<noteq> str ''G''" "str ''F'' \<noteq> str ''A''" "str ''F'' \<noteq> str ''O''"
    by (simp_all add: str_def)
  have sub: "substring 0 4 d = take 4 d" "substring 4 6 d = take 2 (drop 4 d)" "substring 6 8 d = drop 6 d"
    using assms(1) by (simp_all add: substring_def)
  show ?thesis
    unfolding qr_field_def s by (simp add: ne k trim_F assms(1) sub)
qed

subsection \<open>Evaluation of concrete inputs\<close>

lemma rep_numeral:
  "rep f lo hi greedy (numeral k) st = rep f lo hi greedy (Suc (pred_numeral k)) st"
  by (simp only: numeral_eq_Suc)

lemmas js_eval =
  str_def isWhiteSpace_def isDigit_def isLineTerminator_def trim_def str_includes_def lastIndexOf_def
  remove_all_def substring_def falsy_def interpolate_def digits_value_def exponent_def
  unsigned_literal_def negate_def parseFloat_def isNaN_def falsy_number_def
  variants_def in_class_def same_char_def group_def match_def lit_def
  many0_def many1_def many1_lazy_def optional_def between_def at_least_def
  just_def from_to_def ws_def dg_def euro_def pound_def flag_i_def flag_m_def flag_im_def no_flags_def
  Let_def rep_numeral

subsection \<open>Fields that are not found\<close>





lemma parseInvoiceData_fields:
  "\<exists>tv cur num.
     total_loop totalPatterns (trim (collapse_spaces text)) = Inr tv \<and>
     extract_currency (trim (collapse_spaces text)) = Inr cur \<and>
     invoice_loop invoiceNumberPatterns (trim (collapse_spaces text)) = Inr num \<and>
     parseInvoiceData text =
       Inr \<lparr>totalValue = tv, currency = cur, invoiceNumber = num, invoiceDate = None,
            supplierName = (if falsy (first_line_supplier text) then supplier_loop supplierPatterns text
                            else first_line_supplier text),
            customerNIF = None\<rparr>"
proof -
  let ?clean = "trim (collapse_spaces text)"
  obtain tv where 1: "total_loop totalPatterns ?clean = Inr tv"
    using total_loop_total [OF totalPatterns_bind] by blast
  obtain cur where 2: "extract_currency ?clean = Inr cur"
    using extract_currency_total by blast
  obtain num where 3: "invoice_loop invoiceNumberPatterns ?clean = Inr num"
    using invoice_loop_total [OF invoiceNumberPatterns_bind] by blast
  show ?thesis by (simp add: parseInvoiceData_def 1 2 3 Let_def)
qed





text \<open>
  Claim C10. For every payload \<open>parseQRCodeData\<close> returns a record, and its currency
  is \<open>EUR\<close>.
\<close>

theorem qr_currency_is_always_EUR:
  "\<exists>r. parseQRCodeData qrData = Inr r \<and> currency r = Some (str ''EUR'')"
  using parseQRCodeData_total [of qrData] by blast

theorem qr_currency_is_always_EUR_witness:
  "\<exists>r. parseQRCodeData (str ''hello world'') = Inr r \<and> currency r = Some (str ''EUR'')"
  by (rule qr_currency_is_always_EUR)

text \<open>
  Claim C8, as the code has it. A payload is given by its segments, joined by \<open>*\<close>.
  When one segment is \<open>F:\<close> followed by eight digits \<open>d\<close>, and no later segment
  stores a date (a key that trims to \<open>F\<close> with a value of eight characters), the
  record returned has the invoice date made of the first four characters of \<open>d\<close>, a
  hyphen, the next two, a hyphen, and the last two.
\<close>

theorem date_segment_gives_iso_date:
  assumes "length d = 8" and "\<forall>c \<in> set d. isDigit c"
    and "\<forall>s \<in> set before \<union> set after. 42 \<notin> set s"
    and "\<forall>s \<in> set after. \<not> sets_date s"
  shows "\<exists>r. parseQRCodeData (join (before @ [str ''F:'' @ d] @ after)) = Inr r \<and>
             invoiceDate r = Some (take 4 d @ str ''-'' @ take 2 (drop 4 d) @ str ''-'' @ drop 6 d)"
proof -
  let ?seg = "str ''F:'' @ d"
  let ?segs = "before @ [?seg] @ after"
  from assms(2) have nc: "58 \<notin> set d" and ns: "42 \<notin> set d"
    by (auto simp: isDigit_def)
  from ns have "42 \<notin> set ?seg" by (simp add: str_def)
  with assms(3) have "\<forall>s \<in> set ?segs. 42 \<notin> set s" by auto
  then have sp: "split 42 (join ?segs) = ?segs" by (intro split_join) simp_all
  have "invoiceDate (foldl qr_field qr_initial ?segs) =
          invoiceDate (qr_field (foldl qr_field qr_initial before) ?seg)"
    by (simp add: foldl_qr_field_no_date [OF assms(4)])
  also have "\<dots> = Some (take 4 d @ str ''-'' @ take 2 (drop 4 d) @ str ''-'' @ drop 6 d)"
    by (rule qr_field_date [OF assms(1) nc])
  finally have date: "invoiceDate (foldl qr_field qr_initial ?segs) =
      Some (take 4 d @ str ''-'' @ take 2 (drop 4 d) @ str ''-'' @ drop 6 d)" .
  obtain r where r: "parseQRCodeData (join ?segs) = Inr r"
    and "invoiceDate r = invoiceDate (foldl qr_field qr_initial (split 42 (join ?segs)))"
    using parseQRCodeData_total [of "join ?segs"] by blast
  then have "invoiceDate r = Some (take 4 d @ str ''-'' @ take 2 (drop 4 d) @ str ''-'' @ drop 6 d)"
    unfolding sp date by simp
  with r show ?thesis by blast
qed

lemma join_example:
  "join ([str ''A:123456789''] @ [str ''F:'' @ str ''20250929''] @ [str ''O:55,20'']) =
     str ''A:123456789*F:20250929*O:55,20''"
  by (simp add: str_def)

theorem date_segment_gives_iso_date_witness:
  "length (str ''20250929'') = 8 \<and>
   (\<exists>r. parseQRCodeData (str ''A:123456789*F:20250929*O:55,20'') = Inr r \<and>
        invoiceDate r = Some (str ''2025-09-29'')) \<and>
   (\<exists>r. parseQRCodeData (str ''F:20250929'') = Inr r \<and> invoiceDate r = Some (str ''2025-09-29''))"
proof -
  have 1: "length (str ''20250929'') = 8" by (simp add: str_def)
  have 2: "\<forall>c \<in> set (str ''20250929''). isDigit c" by (simp add: str_def isDigit_def)
  have 3: "\<forall>s \<in> set [str ''A:123456789''] \<union> set [str ''O:55,20'']. 42 \<notin> set s" by (simp add: str_def)
  have 4: "\<forall>s \<in> set [str ''O:55,20'']. \<not> sets_date s"
    by (simp add: sets_date_def js_eval)
  have iso: "take 4 (str ''20250929'') @ str ''-'' @ take 2 (drop 4 (str ''20250929'')) @ str ''-''
              @ drop 6 (str ''20250929'') = str ''2025-09-29''"
    by (simp add: str_def)
  from date_segment_gives_iso_date [OF 1 2 3 4]
  have a: "\<exists>r. parseQRCodeData (str ''A:123456789*F:20250929*O:55,20'') = Inr r \<and>
        invoiceDate r = Some (str ''2025-09-29'')"
    unfolding join_example iso .
  have "\<exists>r. parseQRCodeData (join ([] @ [str ''F:'' @ str ''20250929''] @ [])) = Inr r \<and>
        invoiceDate r = Some (str ''2025-09-29'')"
    using date_segment_gives_iso_date [OF 1 2, of "[]" "[]"] unfolding iso by simp
  moreover have "join ([] @ [str ''F:'' @ str ''20250929''] @ []) = str ''F:20250929''"
    by (simp add: str_def)
  ultimately have b: "\<exists>r. parseQRCodeData (str ''F:20250929'') = Inr r \<and> invoiceDate r = Some (str ''2025-09-29'')"
    by simp
  from 1 a b show ?thesis by blast
qed

lemmas pattern_defs =
  totalPatterns_def currencies_def comma_amount_def colon_space_def symbol_class_def us_amount_def
  currencyPattern_def series_class_def number_class_def colon_dash_def seriesPattern_def
  invoiceNumberPatterns_def name_start_def name_char_def supplierPatterns_def decimalPattern_def

text \<open>
  Claim C8 as stated fails: the branch of key \<open>F\<close> asks only that the value has
  eight characters, and a later segment overwrites an earlier one. The payload
  \<open>F:20250929*F:2025-9-2\<close> contains the date segment of the claim, and the date
  returned is \<open>2025--9--2\<close>.
\<close>

theorem later_date_segment_overrides:
  "\<exists>r. parseQRCodeData (str ''F:20250929*F:2025-9-2'') = Inr r \<and>
       invoiceDate r = Some (str ''2025--9--2'') \<and>
       invoiceDate r \<noteq> Some (str ''2025-09-29'')"
  by (simp add: parseQRCodeData_def qr_field_def qr_fallback_def qr_initial_def pattern_defs js_eval)







text \<open>
  Claim C7, at the payload \<open>O:0,00\<close>: the branch of key \<open>O\<close> stores nothing, the
  simple parsing then finds \<open>0,00\<close> in the payload and stores it without asking
  that it be above zero.
\<close>

theorem zero_total_is_stored:
  "totalValue (foldl qr_field qr_initial (split 42 (str ''O:0,00''))) = None \<and>
   parseQRCodeData (str ''O:0,00'') = Inr (qr_initial\<lparr>totalValue := Some (Num 0)\<rparr>)"
  by (simp add: parseQRCodeData_def qr_field_def qr_fallback_def qr_initial_def pattern_defs js_eval)

lemma qr_total_55_20:
  "parseQRCodeData (str ''O:55,20'') = Inr (qr_initial\<lparr>totalValue := Some (Num 55.20)\<rparr>)"
  by (simp add: parseQRCodeData_def qr_field_def qr_initial_def js_eval)

text \<open>
  Claim C4, at the text \<open>Total Amount Due: $1,234.56\<close>: the second pattern (a
  currency sign, then an amount with a decimal comma) matches \<open>$1,23\<close> before the
  pattern for this format is tried, and the total is 1.23.
\<close>

theorem us_amount_is_cut_short:
  "match (trim (collapse_spaces (str ''Total Amount Due: $1,234.56''))) (totalPatterns ! 0) = None \<and>
   match (trim (collapse_spaces (str ''Total Amount Due: $1,234.56''))) (totalPatterns ! 1) =
     Some \<lparr>whole = str ''$1,23'', groups = [(1, str ''1,23'')]\<rparr> \<and>
   (\<exists>r. parseInvoiceData (str ''Total Amount Due: $1,234.56'') = Inr r \<and>
        totalValue r = Some (Num 1.23))"
proof -
  let ?clean = "trim (collapse_spaces (str ''Total Amount Due: $1,234.56''))"
  have c: "?clean = str ''Total Amount Due: $1,234.56''"
    by (simp add: js_eval)
  have 0: "match ?clean (totalPatterns ! 0) = None"
    unfolding c by (simp add: pattern_defs js_eval)
  have 1: "match ?clean (totalPatterns ! 1) = Some \<lparr>whole = str ''$1,23'', groups = [(1, str ''1,23'')]\<rparr>"
    unfolding c by (simp add: pattern_defs js_eval)
  have "total_loop totalPatterns ?clean = Inr (Some (Num 1.23))"
    unfolding c by (simp add: pattern_defs normalise_amount_def js_eval)
  with parseInvoiceData_fields [of "str ''Total Amount Due: $1,234.56''"]
  have "\<exists>r. parseInvoiceData (str ''Total Amount Due: $1,234.56'') = Inr r \<and>
        totalValue r = Some (Num 1.23)"
    by auto
  with 0 1 show ?thesis by blast
qed

lemma comma_decimal_amount:
  "\<exists>r. parseInvoiceData (str ''Total: Eur 1.234,56'') = Inr r \<and> totalValue r = Some (Num 1234.56)"
proof -
  let ?clean = "trim (collapse_spaces (str ''Total: Eur 1.234,56''))"
  have "total_loop totalPatterns ?clean = Inr (Some (Num 1234.56))"
    by (simp add: pattern_defs normalise_amount_def js_eval)
  with parseInvoiceData_fields [of "str ''Total: Eur 1.234,56''"] show ?thesis by auto
qed

lemma normalise_amount_examples:
  "normalise_amount (str ''1.234,56'') = str ''1234.56''"
  "normalise_amount (str ''1,234.56'') = str ''1234.56''"
  "normalise_amount (str ''1,23'') = str ''1.23''"
  by (simp_all add: normalise_amount_def js_eval)

section \<open>Properties of the decode cascade\<close>

lemma foldl_then_try_found: "foldl (then_try env) (Some code, tr) ss = (Some code, tr)"
  by (induction ss) (simp_all add: then_try_def)

lemma foldl_then_try:
  "foldl (then_try env) (None, tr) ss = (fst (first_success env ss), tr @ snd (first_success env ss))"
proof (induction ss arbitrary: tr)
  case Nil
  show ?case by (simp add: first_success_def)
next
  case (Cons s ss)
  show ?case
  proof (cases "fst (tryStrategy env s)")
    case None
    then have "then_try env (None, tr) s = (None, tr @ [(s, snd (tryStrategy env s))])"
      by (simp add: then_try_def)
    with None Cons.IH [of "tr @ [(s, snd (tryStrategy env s))]"] show ?thesis
      by (simp add: first_success_def failing_def)
  next
    case (Some code)
    then have "then_try env (None, tr) s = (Some code, tr @ [(s, snd (tryStrategy env s))])"
      by (simp add: then_try_def)
    with Some show ?thesis
      by (simp add: first_success_def failing_def foldl_then_try_found)
  qed
qed

lemma scanQRCode_foldl:
  "dimensions env = Some (w, h) \<Longrightarrow> scanQRCode env = foldl (then_try env) (None, []) (strategy_order w h)"
  by (simp add: scanQRCode_def strategy_order_def Let_def)

lemma scanQRCode_first_success:
  "dimensions env = Some (w, h) \<Longrightarrow> scanQRCode env = first_success env (strategy_order w h)"
  by (simp add: scanQRCode_foldl foldl_then_try)

lemma tryStrategy_engines:
  "(\<exists>n. snd (tryStrategy env s) = take n [JsQR, ZXingHybrid, ZXingGlobalHistogram]) \<and>
   (\<forall>code. fst (tryStrategy env s) = Some code \<longrightarrow>
      code \<noteq> [] \<and> snd (tryStrategy env s) \<noteq> [] \<and>
      text_of (decodes env s (last (snd (tryStrategy env s)))) = Some code)"
proof -
  have t: "[JsQR] = take 1 [JsQR, ZXingHybrid, ZXingGlobalHistogram]"
    "[JsQR, ZXingHybrid] = take 2 [JsQR, ZXingHybrid, ZXingGlobalHistogram]"
    "[JsQR, ZXingHybrid, ZXingGlobalHistogram] = take 3 [JsQR, ZXingHybrid, ZXingGlobalHistogram]"
    "[] = take 0 [JsQR, ZXingHybrid, ZXingGlobalHistogram]"
    by simp_all
  show ?thesis
    apply (rule conjI)
    subgoal
      by (auto simp: tryStrategy_def tryQRScan_def falsy_def split: reply.splits option.splits if_splits intro: t)
    subgoal
      by (auto simp: tryStrategy_def tryQRScan_def falsy_def text_of_def split: reply.splits option.splits if_splits)
    done
qed

lemma scanQRCode_not_empty: "fst (scanQRCode env) \<noteq> Some []"
proof (cases "dimensions env")
  case None
  then show ?thesis by (simp add: scanQRCode_def)
next
  case (Some d)
  obtain w h where d: "d = (w, h)" by (cases d)
  have "fst (first_success env ss) \<noteq> Some []" for ss
    using tryStrategy_engines by (auto simp: first_success_def split: list.splits)
  with Some show ?thesis by (simp add: d scanQRCode_first_success)
qed

lemma opa_tryStrategy:
  "tryStrategy only_posterize_aggressive s =
     (if s = PosterizeAggressive then (Some (str ''A:1*O:55,20''), [JsQR])
      else (None, [JsQR, ZXingHybrid, ZXingGlobalHistogram]))"
  by (simp add: tryStrategy_def tryQRScan_def only_posterize_aggressive_def falsy_def text_of_def str_def)

lemma opa_scan:
  "scanQRCode only_posterize_aggressive =
     (Some (str ''A:1*O:55,20''),
      map (\<lambda>s. (s, [JsQR, ZXingHybrid, ZXingGlobalHistogram]))
        [Original, GreyscaleContrast, NormalizeContrast, Invert, Brightness, Posterize, Blur,
         NormalizeOnly, Scale 1600, Scale 1200, Scale 800]
      @ [(PosterizeAggressive, [JsQR])])"
proof -
  have d: "dimensions only_posterize_aggressive = Some (3000, 2000)"
    by (simp add: only_posterize_aggressive_def)
  show ?thesis
    by (simp add: scanQRCode_def d Let_def then_try_def opa_tryStrategy)
qed





section \<open>Properties of the document adapter\<close>

lemma try_scale_None: "try_scale env scale = None \<longleftrightarrow> scale_fails env scale"
proof (cases "fst (scanQRCode (image_at env scale))")
  case None
  then show ?thesis by (simp add: try_scale_def scale_fails_def)
next
  case (Some qrData)
  with scanQRCode_not_empty [of "image_at env scale"] have ne: "qrData \<noteq> []" by auto
  obtain r where "parseQRCodeData qrData = Inr r" using parseQRCodeData_total by blast
  with Some ne show ?thesis by (simp add: try_scale_def scale_fails_def)
qed

lemma try_scale_Some:
  "\<not> scale_fails env scale \<Longrightarrow>
   \<exists>qrData r. fst (scanQRCode (image_at env scale)) = Some qrData \<and> parseQRCodeData qrData = Inr r \<and>
     try_scale env scale = Some \<lparr>extracted_text = qrData, method_name = ''qr-code-pdf'', data = r\<rparr>"
proof -
  assume a: "\<not> scale_fails env scale"
  then obtain qrData where q: "fst (scanQRCode (image_at env scale)) = Some qrData"
    by (auto simp: scale_fails_def)
  with scanQRCode_not_empty [of "image_at env scale"] have ne: "qrData \<noteq> []" by auto
  obtain r where r: "parseQRCodeData qrData = Inr r" using parseQRCodeData_total by blast
  from a q ne r show ?thesis by (simp add: try_scale_def scale_fails_def)
qed

lemma scale_loop_eq:
  "scale_loop env ss tried =
     (case dropWhile (scale_fails env) ss of [] \<Rightarrow> None | s # _ \<Rightarrow> try_scale env s,
      tried @ takeWhile (scale_fails env) ss @ take 1 (dropWhile (scale_fails env) ss))"
proof (induction ss arbitrary: tried)
  case Nil
  show ?case by simp
next
  case (Cons s ss)
  show ?case
  proof (cases "scale_fails env s")
    case True
    then have "try_scale env s = None" by (simp add: try_scale_None)
    with True Cons.IH [of "tried @ [s]"] show ?thesis by simp
  next
    case False
    then obtain result where "try_scale env s = Some result"
      using try_scale_None [of env s] by (cases "try_scale env s") auto
    with False show ?thesis by simp
  qed
qed

lemma extractFromPDF_eq:
  "page_loads env \<Longrightarrow>
   extractFromPDF env =
     (case dropWhile (scale_fails env) scales of
        [] \<Rightarrow> \<lparr>extracted_text = [], method_name = ''qr-code-pdf-failed'', data = no_fields\<rparr>
      | s # _ \<Rightarrow> (case try_scale env s of
                    None \<Rightarrow> \<lparr>extracted_text = [], method_name = ''qr-code-pdf-failed'', data = no_fields\<rparr>
                  | Some result \<Rightarrow> result),
      takeWhile (scale_fails env) scales @ take 1 (dropWhile (scale_fails env) scales))"
proof (cases "dropWhile (scale_fails env) scales")
  case Nil
  assume "page_loads env"
  then show ?thesis unfolding extractFromPDF_def scale_loop_eq Nil by simp
next
  case (Cons s rest)
  assume "page_loads env"
  then show ?thesis unfolding extractFromPDF_def scale_loop_eq Cons
    by (cases "try_scale env s") simp_all
qed

text \<open>
  Claim C5. The scales are 4.0, 3.5, 3.0, 2.5, 2.0, strictly descending. Once the
  page is loaded, the scales are tried from the front up to and including the first
  one that renders and scans to a payload; a scale that fails to render, or whose
  image gives no payload, only moves the loop on. When every scale fails the result
  is the record with no fields and method \<open>qr-code-pdf-failed\<close>, after all five
  scales were tried; otherwise it is the parsed payload of the first scale that
  succeeds. When the page cannot be loaded the result is the record with no fields
  and method \<open>qr-code-pdf-error\<close>. In every case a record is returned.
\<close>

theorem pdf_scales_descend_and_fail_locally:
  "scales = [4, 7 / 2, 3, 5 / 2, 2] \<and> sorted_wrt (>) scales \<and>
   (\<not> page_loads env \<longrightarrow>
      extractFromPDF env = (\<lparr>extracted_text = [], method_name = ''qr-code-pdf-error'', data = no_fields\<rparr>, [])) \<and>
   (page_loads env \<longrightarrow>
      snd (extractFromPDF env) =
        takeWhile (scale_fails env) scales @ take 1 (dropWhile (scale_fails env) scales) \<and>
      ((\<forall>scale \<in> set scales. scale_fails env scale) \<longrightarrow>
         extractFromPDF env =
           (\<lparr>extracted_text = [], method_name = ''qr-code-pdf-failed'', data = no_fields\<rparr>, scales)) \<and>
      (\<forall>scale rest. dropWhile (scale_fails env) scales = scale # rest \<longrightarrow>
         (\<exists>qrData r. fst (scanQRCode (image_at env scale)) = Some qrData \<and>
                     parseQRCodeData qrData = Inr r \<and>
                     fst (extractFromPDF env) =
                       \<lparr>extracted_text = qrData, method_name = ''qr-code-pdf'', data = r\<rparr>)))"
proof -
  have 1: "scales = [4, 7 / 2, 3, 5 / 2, 2]" by (simp add: scales_def)
  have 2: "sorted_wrt (>) scales" by (simp add: scales_def)
  have 3: "\<not> page_loads env \<longrightarrow>
      extractFromPDF env = (\<lparr>extracted_text = [], method_name = ''qr-code-pdf-error'', data = no_fields\<rparr>, [])"
    by (simp add: extractFromPDF_def)
  have 4: "snd (extractFromPDF env) =
        takeWhile (scale_fails env) scales @ take 1 (dropWhile (scale_fails env) scales)"
    if "page_loads env"
    by (simp add: extractFromPDF_eq [OF that])
  have 5: "extractFromPDF env =
           (\<lparr>extracted_text = [], method_name = ''qr-code-pdf-failed'', data = no_fields\<rparr>, scales)"
    if "page_loads env" and all: "\<forall>scale \<in> set scales. scale_fails env scale"
  proof -
    from all have "dropWhile (scale_fails env) scales = []" and "takeWhile (scale_fails env) scales = scales"
      by (simp_all add: dropWhile_eq_Nil_conv takeWhile_eq_all_conv)
    then show ?thesis by (simp only: extractFromPDF_eq [OF that(1)] list.case take.simps append_Nil2)
  qed
  have 6: "\<exists>qrData r. fst (scanQRCode (image_at env scale)) = Some qrData \<and>
                     parseQRCodeData qrData = Inr r \<and>
                     fst (extractFromPDF env) =
                       \<lparr>extracted_text = qrData, method_name = ''qr-code-pdf'', data = r\<rparr>"
    if "page_loads env" and d: "dropWhile (scale_fails env) scales = scale # rest" for scale rest
  proof -
    from d have "\<not> scale_fails env scale"
      by (metis hd_dropWhile list.sel(1) list.distinct(1))
    from try_scale_Some [OF this] obtain qrData r where
      "fst (scanQRCode (image_at env scale)) = Some qrData" "parseQRCodeData qrData = Inr r"
      "try_scale env scale = Some \<lparr>extracted_text = qrData, method_name = ''qr-code-pdf'', data = r\<rparr>"
      by blast
    then show ?thesis by (simp add: extractFromPDF_eq [OF that(1)] d)
  qed
  from 1 2 3 4 5 6 show ?thesis by blast
qed

lemma blank_image_scan: "fst (scanQRCode blank_image) = None"
proof -
  have "tryStrategy blank_image s = (None, [JsQR, ZXingHybrid, ZXingGlobalHistogram])" for s
    by (simp add: tryStrategy_def tryQRScan_def blank_image_def falsy_def text_of_def)
  moreover have "dimensions blank_image = Some (1240, 1754)" by (simp add: blank_image_def)
  ultimately show ?thesis by (simp add: scanQRCode_def Let_def then_try_def)
qed

lemma parse_A1_O5520:
  "parseQRCodeData (str ''A:1*O:55,20'') =
     Inr (qr_initial\<lparr>totalValue := Some (Num 55.20), customerNIF := Some (str ''1'')\<rparr>)"
  by (simp add: parseQRCodeData_def qr_field_def qr_initial_def js_eval)

theorem pdf_scales_descend_and_fail_locally_witness:
  "page_loads readable_at_2 \<and>
   extractFromPDF readable_at_2 =
     (\<lparr>extracted_text = str ''A:1*O:55,20'', method_name = ''qr-code-pdf'',
       data = qr_initial\<lparr>totalValue := Some (Num 55.20), customerNIF := Some (str ''1'')\<rparr>\<rparr>,
      [4, 7 / 2, 3, 5 / 2, 2]) \<and>
   page_loads unreadable \<and> list_all (scale_fails unreadable) scales \<and>
   extractFromPDF unreadable =
     (\<lparr>extracted_text = [], method_name = ''qr-code-pdf-failed'', data = no_fields\<rparr>, [4, 7 / 2, 3, 5 / 2, 2]) \<and>
   \<not> page_loads broken_file \<and>
   extractFromPDF broken_file = (\<lparr>extracted_text = [], method_name = ''qr-code-pdf-error'', data = no_fields\<rparr>, [])"
proof -
  note main = pdf_scales_descend_and_fail_locally
  have sc: "scales = [4, 7 / 2, 3, 5 / 2, 2]" using main [of broken_file] by blast
  have fails: "scale_fails readable_at_2 scale \<longleftrightarrow> scale \<noteq> 2" for scale
    by (simp add: scale_fails_def readable_at_2_def blank_image_scan opa_scan)
  have l1: "page_loads readable_at_2" by (simp add: readable_at_2_def)
  have d: "dropWhile (scale_fails readable_at_2) scales = [2]"
    "takeWhile (scale_fails readable_at_2) scales = [4, 7 / 2, 3, 5 / 2]"
    by (simp_all add: sc fails)
  from main [of readable_at_2] l1 d(1)
  obtain qrData r where q: "fst (scanQRCode (image_at readable_at_2 2)) = Some qrData"
    and r: "parseQRCodeData qrData = Inr r"
    and e: "fst (extractFromPDF readable_at_2) = \<lparr>extracted_text = qrData, method_name = ''qr-code-pdf'', data = r\<rparr>"
    by blast
  from q have qd: "qrData = str ''A:1*O:55,20''" by (simp add: readable_at_2_def opa_scan)
  from r have rd: "r = qr_initial\<lparr>totalValue := Some (Num 55.20), customerNIF := Some (str ''1'')\<rparr>"
    by (simp add: qd parse_A1_O5520)
  from main [of readable_at_2] l1 have "snd (extractFromPDF readable_at_2) = [4, 7 / 2, 3, 5 / 2, 2]"
    by (simp add: d)
  with e qd rd have a: "extractFromPDF readable_at_2 =
     (\<lparr>extracted_text = str ''A:1*O:55,20'', method_name = ''qr-code-pdf'',
       data = qr_initial\<lparr>totalValue := Some (Num 55.20), customerNIF := Some (str ''1'')\<rparr>\<rparr>,
      [4, 7 / 2, 3, 5 / 2, 2])"
    by (simp add: prod_eq_iff)
  have l2: "page_loads unreadable" by (simp add: unreadable_def)
  have f2: "\<forall>scale \<in> set scales. scale_fails unreadable scale"
    by (simp add: scale_fails_def unreadable_def blank_image_scan)
  from main [of unreadable] l2 f2 have b: "extractFromPDF unreadable =
     (\<lparr>extracted_text = [], method_name = ''qr-code-pdf-failed'', data = no_fields\<rparr>, [4, 7 / 2, 3, 5 / 2, 2])"
    by (simp add: sc)
  have l3: "\<not> page_loads broken_file" by (simp add: broken_file_def)
  with main [of broken_file] have c: "extractFromPDF broken_file =
      (\<lparr>extracted_text = [], method_name = ''qr-code-pdf-error'', data = no_fields\<rparr>, [])"
    by blast
  from f2 have f2': "list_all (scale_fails unreadable) scales" by (simp add: list_all_iff)
  from l1 a l2 f2' b l3 c show ?thesis by blast
qed

end
